theory Spec2Isabelle
  imports Main "HOL-Library.AList"
begin

section \<open>Graceful shutdown coordinator: data model\<close>

text \<open>
  The embedding follows the class \<open>ShutdownCoordinator\<close>. The object and the part of the
  host it talks to (clock, pending timers, the microtask queue, pending unhandled
  rejections, process exit, the observable effects) form one record, passed through every
  operation. A JavaScript exception is the outcome \<open>Raise\<close>; the fields written before
  the throw stay written.
\<close>

datatype shutdown_state = ACTIVE | SHUTDOWN_PENDING | DRAINING | CLEANUP | TERMINATION

definition EXIT_GRACEFUL :: int where "EXIT_GRACEFUL = 0"

definition EXIT_TIMEOUT :: int where "EXIT_TIMEOUT = 1"

definition EXIT_RESOURCE_CLEANUP_FAILED :: int where "EXIT_RESOURCE_CLEANUP_FAILED = 2"

definition EXIT_SIGNAL_ERROR :: int where "EXIT_SIGNAL_ERROR = 3"

datatype log_level = Debug | Info | Warn | Error

text \<open>
  The options are counts and durations; \<open>maxConnections\<close> is an integer (the source
  compares it with \<open>Map.size\<close> and never validates it, so it may be negative).
\<close>

record config =
  gracePeriodMs :: nat
  forceTimeoutMs :: nat
  connectionTimeoutMs :: nat
  maxConnections :: int
  logLevel :: log_level

definition DEFAULT_CONFIG :: config where
  "DEFAULT_CONFIG = \<lparr> gracePeriodMs = 30000, forceTimeoutMs = 5000,
     connectionTimeoutMs = 30000, maxConnections = 1000, logLevel = Info \<rparr>"

text \<open>
  A thrown value or rejection reason. JavaScript can throw any value: \<open>Nullish\<close> is
  \<open>null\<close> or \<open>undefined\<close> (\<open>throw undefined\<close>, \<open>Promise.reject()\<close>), on which
  reading a property throws a \<open>TypeError\<close>; any other value is taken with its \<open>name\<close>
  and its \<open>message\<close>. Values that are falsy without being null or undefined are not
  distinguished from objects.
\<close>

datatype js_error = Nullish | JsError (err_name: string) (err_message: string)

datatype outcome = Normal | Raise js_error

text \<open>The \<open>TypeError\<close> of the engine for \<open>v.prop\<close> on a null or undefined \<open>v\<close>, with
  the message it has for \<open>undefined\<close> (for \<open>null\<close> the engine's message names
  \<open>null\<close>).\<close>

definition type_error :: "string \<Rightarrow> js_error" where
  "type_error prop =
     JsError ''TypeError''
       (''Cannot read properties of undefined (reading '' @ [CHR 0x27] @ prop @ [CHR 0x27] @ '')'')"

definition read_prop :: "js_error \<Rightarrow> string \<Rightarrow> outcome" where
  "read_prop v prop = (case v of Nullish \<Rightarrow> Raise (type_error prop) | JsError n m \<Rightarrow> Normal)"

text \<open>\<open>if (error)\<close> on an optional error argument.\<close>

definition truthy :: "js_error option \<Rightarrow> bool" where
  "truthy v = (case v of Some (JsError n m) \<Rightarrow> True | _ \<Rightarrow> False)"

text \<open>
  A transport handle: \<open>destroy_fault\<close> is the exception its \<open>destroy()\<close> throws, if any
  (the source guards for it in \<open>forceCloseConnections\<close>).
\<close>

record js_socket =
  sock_id :: nat
  sock_remoteAddress :: string
  sock_remotePort :: nat
  destroy_fault :: "js_error option"

text \<open>
  The identifier \<open>conn-${Date.now()}-${++connectionCounter}\<close> is the pair of its two
  numbers (the string is an injective rendering of the pair).
\<close>

type_synonym conn_id = "nat \<times> nat"

record connection_info =
  cid :: conn_id
  socket :: js_socket
  startTime :: nat
  remoteAddress :: string
  remotePort :: nat
  requestCount :: nat
  lastActivity :: nat
  timeout :: "nat option"

text \<open>
  The argument of \<open>registerServer\<close>: \<open>None\<close> is a falsy value, \<open>has_close\<close> is
  \<open>typeof server.close === 'function'\<close>, \<open>close_fault\<close> the exception \<open>close\<close> throws.
\<close>

record js_server =
  srv_id :: nat
  has_close :: bool
  close_fault :: "js_error option"

text \<open>
  User callbacks and user listeners are opaque functions: the model records that one ran
  and how it ended, nothing else. A callback returns normally or returns a promise that
  is fulfilled (\<open>Fulfils\<close>), returns a promise that is rejected (\<open>Rejects\<close>), or throws
  when it is called (\<open>Throws\<close>); its promise is settled when it returns.
\<close>

datatype cb_behaviour = Fulfils | Rejects js_error | Throws js_error

record callback =
  cb_id :: nat
  cb_result :: cb_behaviour

record emitter_target =
  tgt_id :: nat
  removeListener_fault :: "js_error option"

record listener_reg =
  reg_event :: string
  reg_handler :: nat

datatype event_name =
    ServerRegistered | ConnectionRegistered | ConnectionRemoved | ConnectionTimeout
  | ShutdownInitiated | ServerClosed | DrainingStarted | ConnectionsForceClosed
  | CleanupStarted | CleanupCompleted | ShutdownCallbacksCompleted | ShutdownCompleted
  | ForceShutdown

record shutdown_summary =
  sum_signal :: string
  sum_duration :: int
  sum_errorsEncountered :: nat
  sum_finalConnectionCount :: nat
  sum_exitCode :: int

datatype payload =
    PNone
  | PConn conn_id
  | PTrigger string "js_error option"
  | PCount nat
  | PTotals nat nat
  | PExit int
  | PSummary shutdown_summary

text \<open>
  Listeners on the coordinator itself: the user's (\<open>coordinator.on(ev, f)\<close>, with what
  \<open>f\<close> throws) and the one the drain phase adds on \<open>connection-removed\<close>, with the grace
  timer it closes over.
\<close>

datatype listener = UserListener event_name "js_error option" | CheckConnections nat

datatype timer_action = ConnTimeout conn_id | GraceTimeout | ForceExit int

text \<open>
  The promise of one wrapper \<open>async (callback) => { try { await callback() } catch ... }\<close>
  of the two callback phases: settled, or suspended at its \<open>await\<close> on a promise that is
  fulfilled (\<open>Awaiting None\<close>) or rejected.
\<close>

datatype wrapper = Fulfilled | Rejected js_error | Awaiting "js_error option"

text \<open>
  Promise continuations. \<open>MainSeq\<close> is the chain \<open>handleSignal\<close> awaits
  (\<open>executeShutdownSequence\<close>), \<open>CleanupChain\<close> the \<open>then\<close> chain of
  \<open>transitionToCleanup\<close>. A job is one turn of the microtask queue: the code that runs
  after one \<open>await\<close> or in one \<open>then\<close> callback, up to the next suspension. \<open>Hop j\<close>
  is a turn of the promise machinery itself, with no effect but to queue \<open>j\<close>: the
  adoption of a returned promise, the reaction of \<open>Promise.all\<close> to an element, the
  passing of a rejection along a \<open>then\<close> chain. The continuations of the wrappers of one
  callback phase are queued together and are one job (\<open>CleanupSettle\<close>,
  \<open>CallbacksSettle\<close>). Jobs run in the order they were queued.
\<close>

datatype caller = MainSeq string "js_error option" | CleanupChain

datatype job =
    AfterStopAccept string "js_error option"
  | AfterDrain string "js_error option"
  | CleanupSettle caller "wrapper list"
  | CleanupResume caller "js_error option"
  | AfterCleanup caller
  | CallbacksSettle caller "wrapper list"
  | CallbacksResume caller nat
  | AfterCallbacks caller
  | Catch caller js_error
  | Hop job

datatype effect =
    Log log_level string shutdown_state
  | Emit event_name payload
  | SocketDestroy nat
  | ClearTimeout nat
  | ClearInterval nat
  | RemoveListener nat string nat
  | TargetOn nat string nat
  | ProcessOn string
  | ProcessRemoveListener string
  | ServerOnConnection nat
  | ServerClose nat
  | CallbackInvoked nat
  | ProcessExit int
  | UnhandledRejection js_error
  | UncaughtException js_error

record coordinator =
  config :: config
  state :: shutdown_state
  shutdownInitiated :: bool
  shutdownStartTime :: "nat option"
  activeConnections :: "(conn_id \<times> connection_info) list"
  connectionCounter :: nat
  maxConnectionsReached :: bool
  timers :: "nat list"
  intervals :: "nat list"
  eventListeners :: "(emitter_target \<times> listener_reg list) list"
  server :: "js_server option"
  shutdownCallbacks :: "callback list"
  resourceCleanupCallbacks :: "callback list"
  signalHandlers :: "string list"
  shutdownErrors :: "js_error list"
  listeners :: "listener list"
  now :: nat
  nextTimer :: nat
  pendingTimers :: "(nat \<times> nat \<times> timer_action) list"
  jobs :: "job list"
  rejections :: "js_error list"
  closeCallbackArmed :: bool
  closeWaiter :: "(string \<times> js_error option) option"
  drainWaiter :: "(nat \<times> string \<times> js_error option) option"
  faultHandlers :: bool
  exited :: "int option"
  trace :: "effect list"

section \<open>Host primitives\<close>

definition andThen ::
  "outcome \<times> coordinator \<Rightarrow> (coordinator \<Rightarrow> outcome \<times> coordinator) \<Rightarrow> outcome \<times> coordinator" where
  "andThen r k = (case r of (Normal, w) \<Rightarrow> k w | (Raise e, w) \<Rightarrow> (Raise e, w))"

text \<open>\<open>forEach\<close> over a collection: an exception of the callback ends the iteration.\<close>

fun forEach ::
  "('a \<Rightarrow> coordinator \<Rightarrow> outcome \<times> coordinator) \<Rightarrow> 'a list \<Rightarrow> coordinator \<Rightarrow> outcome \<times> coordinator" where
  "forEach f [] w = (Normal, w)"
| "forEach f (x # xs) w = andThen (f x w) (forEach f xs)"

definition record_effect :: "effect \<Rightarrow> coordinator \<Rightarrow> coordinator" where
  "record_effect x w = w\<lparr>trace := trace w @ [x]\<rparr>"

text \<open>\<open>log\<close>: debug lines are dropped unless the configured level is debug; the entry
  carries \<open>this.state\<close> as the source's \<open>logEntry\<close> does.\<close>

definition log :: "log_level \<Rightarrow> string \<Rightarrow> coordinator \<Rightarrow> coordinator" where
  "log level message w =
     (if level = Debug \<and> logLevel (config w) \<noteq> Debug then w
      else record_effect (Log level message (state w)) w)"

text \<open>The host runs a timer after 1 ms when the delay is below 1 or above \<open>2^31 - 1\<close>.\<close>

definition timer_delay :: "nat \<Rightarrow> nat" where
  "timer_delay delay = (if 1 \<le> delay \<and> delay \<le> 2147483647 then delay else 1)"

definition setTimeout :: "nat \<Rightarrow> timer_action \<Rightarrow> coordinator \<Rightarrow> nat \<times> coordinator" where
  "setTimeout delay act w =
     (nextTimer w,
      w\<lparr>nextTimer := Suc (nextTimer w),
        pendingTimers := pendingTimers w @ [(nextTimer w, now w + timer_delay delay, act)]\<rparr>)"

definition clearTimeout :: "nat \<Rightarrow> coordinator \<Rightarrow> coordinator" where
  "clearTimeout t w =
     record_effect (ClearTimeout t) (w\<lparr>pendingTimers := filter (\<lambda>p. fst p \<noteq> t) (pendingTimers w)\<rparr>)"

definition clearInterval :: "nat \<Rightarrow> coordinator \<Rightarrow> coordinator" where
  "clearInterval t w = record_effect (ClearInterval t) w"

definition enqueue :: "job \<Rightarrow> coordinator \<Rightarrow> coordinator" where
  "enqueue j w = w\<lparr>jobs := jobs w @ [j]\<rparr>"

text \<open>A promise nobody handles is rejected: the host reports it once the microtask queue
  is empty.\<close>

definition reject :: "js_error \<Rightarrow> coordinator \<Rightarrow> coordinator" where
  "reject e w = w\<lparr>rejections := rejections w @ [e]\<rparr>"

definition process_exit :: "int \<Rightarrow> coordinator \<Rightarrow> coordinator" where
  "process_exit code w = (record_effect (ProcessExit code) w)\<lparr>exited := Some code\<rparr>"

text \<open>\<open>Set.add\<close>: insertion order, no duplicates.\<close>

definition set_add :: "'a \<Rightarrow> 'a list \<Rightarrow> 'a list" where
  "set_add x xs = (if x \<in> set xs then xs else xs @ [x])"

definition destroy :: "js_socket \<Rightarrow> coordinator \<Rightarrow> outcome \<times> coordinator" where
  "destroy s w =
     ((case destroy_fault s of Some e \<Rightarrow> Raise e | None \<Rightarrow> Normal),
      record_effect (SocketDestroy (sock_id s)) w)"

section \<open>Event emission\<close>

text \<open>The promise of \<open>drainConnections\<close> resolves once: the waiter is cleared, and the
  continuation of the sequence runs one turn after the promise the \<open>async\<close> function
  returned has adopted it.\<close>

definition resolveDrain :: "nat \<Rightarrow> coordinator \<Rightarrow> coordinator" where
  "resolveDrain t w =
     (case drainWaiter w of
        Some (t', sig, err) \<Rightarrow>
          if t' = t then enqueue (Hop (AfterDrain sig err)) (w\<lparr>drainWaiter := None\<rparr>) else w
      | None \<Rightarrow> w)"

definition checkConnections :: "nat \<Rightarrow> coordinator \<Rightarrow> coordinator" where
  "checkConnections t w =
     (if length (activeConnections w) = 0 then
        (let w1 = clearTimeout t w;
             w2 = w1\<lparr>timers := removeAll t (timers w1)\<rparr>;
             w3 = log Info ''All connections drained naturally'' w2
         in resolveDrain t w3)
      else w)"

text \<open>\<open>emit\<close> calls the listeners of the event in registration order; a listener that
  throws ends the call and the exception reaches the emitter's caller.\<close>

fun run_listeners :: "listener list \<Rightarrow> event_name \<Rightarrow> coordinator \<Rightarrow> outcome \<times> coordinator" where
  "run_listeners [] ev w = (Normal, w)"
| "run_listeners (UserListener ev' f # ls) ev w =
     (if ev' = ev then
        (case f of Some e \<Rightarrow> (Raise e, w) | None \<Rightarrow> run_listeners ls ev w)
      else run_listeners ls ev w)"
| "run_listeners (CheckConnections t # ls) ev w =
     (if ev = ConnectionRemoved then run_listeners ls ev (checkConnections t w)
      else run_listeners ls ev w)"

definition emit :: "event_name \<Rightarrow> payload \<Rightarrow> coordinator \<Rightarrow> outcome \<times> coordinator" where
  "emit ev p w = run_listeners (listeners w) ev (record_effect (Emit ev p) w)"

section \<open>Construction and server registration\<close>

record options =
  opt_gracePeriodMs :: "nat option"
  opt_forceTimeoutMs :: "nat option"
  opt_connectionTimeoutMs :: "nat option"
  opt_maxConnections :: "int option"
  opt_logLevel :: "log_level option"

definition no_options :: options where
  "no_options = \<lparr> opt_gracePeriodMs = None, opt_forceTimeoutMs = None,
     opt_connectionTimeoutMs = None, opt_maxConnections = None, opt_logLevel = None \<rparr>"

definition merge_config :: "options \<Rightarrow> config" where
  "merge_config opts =
     \<lparr> gracePeriodMs = (case opt_gracePeriodMs opts of Some v \<Rightarrow> v | None \<Rightarrow> gracePeriodMs DEFAULT_CONFIG),
       forceTimeoutMs = (case opt_forceTimeoutMs opts of Some v \<Rightarrow> v | None \<Rightarrow> forceTimeoutMs DEFAULT_CONFIG),
       connectionTimeoutMs = (case opt_connectionTimeoutMs opts of Some v \<Rightarrow> v | None \<Rightarrow> connectionTimeoutMs DEFAULT_CONFIG),
       maxConnections = (case opt_maxConnections opts of Some v \<Rightarrow> v | None \<Rightarrow> maxConnections DEFAULT_CONFIG),
       logLevel = (case opt_logLevel opts of Some v \<Rightarrow> v | None \<Rightarrow> logLevel DEFAULT_CONFIG) \<rparr>"

definition createShutdownCoordinator :: "options \<Rightarrow> coordinator" where
  "createShutdownCoordinator opts =
     log Info ''Shutdown coordinator initialized''
       \<lparr> config = merge_config opts, state = ACTIVE, shutdownInitiated = False,
         shutdownStartTime = None, activeConnections = [], connectionCounter = 0,
         maxConnectionsReached = False, timers = [], intervals = [], eventListeners = [],
         server = None, shutdownCallbacks = [], resourceCleanupCallbacks = [],
         signalHandlers = [], shutdownErrors = [], listeners = [], now = 0, nextTimer = 0,
         pendingTimers = [], jobs = [], rejections = [], closeCallbackArmed = False,
         closeWaiter = None, drainWaiter = None, faultHandlers = False, exited = None,
         trace = [] \<rparr>"

definition setupConnectionTracking :: "js_server \<Rightarrow> coordinator \<Rightarrow> coordinator" where
  "setupConnectionTracking srv w = record_effect (ServerOnConnection (srv_id srv)) w"

definition install_signal :: "string \<Rightarrow> coordinator \<Rightarrow> coordinator" where
  "install_signal sig w =
     log Debug (''Signal handler registered for '' @ sig)
       (record_effect (ProcessOn sig) (w\<lparr>signalHandlers := set_add sig (signalHandlers w)\<rparr>))"

definition setupSignalHandlers :: "coordinator \<Rightarrow> coordinator" where
  "setupSignalHandlers w =
     (let w1 = fold install_signal [''SIGTERM'', ''SIGINT'', ''SIGUSR2''] w;
          w2 = record_effect (ProcessOn ''uncaughtException'') w1;
          w3 = record_effect (ProcessOn ''unhandledRejection'') w2
      in w3\<lparr>faultHandlers := True\<rparr>)"

definition registerServer :: "js_server option \<Rightarrow> coordinator \<Rightarrow> outcome \<times> coordinator" where
  "registerServer arg w =
     (case arg of
        None \<Rightarrow> (Raise (JsError ''Error'' ''Invalid server instance provided''), w)
      | Some srv \<Rightarrow>
          if \<not> has_close srv then
            (Raise (JsError ''Error'' ''Invalid server instance provided''), w)
          else if server w \<noteq> None then
            (Raise (JsError ''Error'' ''Server already registered with shutdown coordinator''), w)
          else
            (let w1 = w\<lparr>server := Some srv\<rparr>;
                 w2 = setupConnectionTracking srv w1;
                 w3 = setupSignalHandlers w2;
                 w4 = log Info ''Server registered for shutdown coordination'' w3
             in emit ServerRegistered PNone w4))"

section \<open>Resource cleanup and shutdown callbacks\<close>

text \<open>\<open>target.removeListener\<close> inside its \<open>try\<close>: the \<open>catch\<close> block reads
  \<open>error.message\<close> for the log line, so a fault that is null or undefined makes the block
  itself throw.\<close>

definition removeListener_caught ::
  "emitter_target \<Rightarrow> listener_reg \<Rightarrow> coordinator \<Rightarrow> outcome \<times> coordinator" where
  "removeListener_caught tg r w =
     (let w1 = record_effect (RemoveListener (tgt_id tg) (reg_event r) (reg_handler r)) w
      in case removeListener_fault tg of
           None \<Rightarrow> (Normal, w1)
         | Some e \<Rightarrow>
             andThen (read_prop e ''message'', w1)
               (\<lambda>w2. (Normal, log Warn ''Error removing event listener'' w2)))"

definition remove_signal_handler :: "string \<Rightarrow> coordinator \<Rightarrow> coordinator" where
  "remove_signal_handler sig w = record_effect (ProcessRemoveListener sig) w"

text \<open>The \<open>catch\<close> block of a callback wrapper: it reads \<open>error.message\<close>, logs and
  records the fault.\<close>

definition callback_catch :: "string \<Rightarrow> js_error \<Rightarrow> coordinator \<Rightarrow> outcome \<times> coordinator" where
  "callback_catch msg e w =
     andThen (read_prop e ''message'', w)
       (\<lambda>w1. (Normal, (log Warn msg w1)\<lparr>shutdownErrors := shutdownErrors w1 @ [e]\<rparr>))"

text \<open>A wrapper up to its \<open>await\<close>: the callback is called; if the call throws, the
  \<open>catch\<close> block runs at once and the wrapper is settled.\<close>

definition call_wrapped :: "string \<Rightarrow> callback \<Rightarrow> coordinator \<Rightarrow> wrapper \<times> coordinator" where
  "call_wrapped msg cb w =
     (let w1 = record_effect (CallbackInvoked (cb_id cb)) w
      in case cb_result cb of
           Fulfils \<Rightarrow> (Awaiting None, w1)
         | Rejects e \<Rightarrow> (Awaiting (Some e), w1)
         | Throws e \<Rightarrow>
             (case callback_catch msg e w1 of
                (Normal, w2) \<Rightarrow> (Fulfilled, w2)
              | (Raise x, w2) \<Rightarrow> (Rejected x, w2)))"

fun call_all :: "string \<Rightarrow> callback list \<Rightarrow> coordinator \<Rightarrow> wrapper list \<times> coordinator" where
  "call_all msg [] w = ([], w)"
| "call_all msg (cb # cbs) w =
     (case call_wrapped msg cb w of
        (x, w1) \<Rightarrow> (case call_all msg cbs w1 of (xs, w2) \<Rightarrow> (x # xs, w2)))"

text \<open>A wrapper after its \<open>await\<close>, one turn later.\<close>

fun resume_wrapped :: "string \<Rightarrow> wrapper \<Rightarrow> coordinator \<Rightarrow> wrapper \<times> coordinator" where
  "resume_wrapped msg (Awaiting None) w = (Fulfilled, w)"
| "resume_wrapped msg (Awaiting (Some e)) w =
     (case callback_catch msg e w of
        (Normal, w1) \<Rightarrow> (Fulfilled, w1)
      | (Raise x, w1) \<Rightarrow> (Rejected x, w1))"
| "resume_wrapped msg Fulfilled w = (Fulfilled, w)"
| "resume_wrapped msg (Rejected x) w = (Rejected x, w)"

fun resume_all :: "string \<Rightarrow> wrapper list \<Rightarrow> coordinator \<Rightarrow> wrapper list \<times> coordinator" where
  "resume_all msg [] w = ([], w)"
| "resume_all msg (x # xs) w =
     (case resume_wrapped msg x w of
        (y, w1) \<Rightarrow> (case resume_all msg xs w1 of (ys, w2) \<Rightarrow> (y # ys, w2)))"

fun awaiting :: "wrapper list \<Rightarrow> bool" where
  "awaiting [] = False"
| "awaiting (Awaiting v # xs) = True"
| "awaiting (x # xs) = awaiting xs"

fun first_rejected :: "wrapper list \<Rightarrow> js_error option" where
  "first_rejected [] = None"
| "first_rejected (Rejected x # xs) = Some x"
| "first_rejected (x # xs) = first_rejected xs"

fun rejected_count :: "wrapper list \<Rightarrow> nat" where
  "rejected_count [] = 0"
| "rejected_count (Rejected x # xs) = Suc (rejected_count xs)"
| "rejected_count (x # xs) = rejected_count xs"

text \<open>The outer \<open>catch\<close> block of \<open>performResourceCleanup\<close>: it logs and records the
  error and throws it again; the result is the error the operation is rejected with.\<close>

definition cleanup_catch :: "js_error \<Rightarrow> coordinator \<Rightarrow> js_error \<times> coordinator" where
  "cleanup_catch e w =
     (case read_prop e ''message'' of
        Raise x \<Rightarrow> (x, w)
      | Normal \<Rightarrow>
          (e, (log Error ''Critical error during resource cleanup'' w)
                \<lparr>shutdownErrors := shutdownErrors w @ [e]\<rparr>))"

text \<open>\<open>performResourceCleanup\<close> up to its \<open>await Promise.all(...)\<close>: either the sweep of
  the listener registrations has thrown and the operation is rejected (\<open>Inl\<close>), or every
  callback has been called and the wrappers are returned (\<open>Inr\<close>).\<close>

definition performResourceCleanup_begin :: "coordinator \<Rightarrow> (js_error + wrapper list) \<times> coordinator" where
  "performResourceCleanup_begin w =
     (let w1 = log Info ''Starting resource cleanup'' w;
          w2 = (fold clearTimeout (timers w1) w1)\<lparr>timers := []\<rparr>;
          w3 = (fold clearInterval (intervals w2) w2)\<lparr>intervals := []\<rparr>
      in case forEach (\<lambda>(tg, regs). forEach (removeListener_caught tg) regs) (eventListeners w3) w3 of
           (Raise x, w4) \<Rightarrow> (case cleanup_catch x w4 of (y, w5) \<Rightarrow> (Inl y, w5))
         | (Normal, w4) \<Rightarrow>
             (let w5 = w4\<lparr>eventListeners := []\<rparr>;
                  w6 = (fold remove_signal_handler (signalHandlers w5) w5)\<lparr>signalHandlers := []\<rparr>
              in case call_all ''Error in resource cleanup callback'' (resourceCleanupCallbacks w6) w6 of
                   (xs, w7) \<Rightarrow> (Inr xs, w7)))"

text \<open>The rest of \<open>performResourceCleanup\<close>, after \<open>Promise.all\<close> has settled (rejected
  with \<open>rej\<close>, or fulfilled).\<close>

definition performResourceCleanup_resume :: "js_error option \<Rightarrow> coordinator \<Rightarrow> outcome \<times> coordinator" where
  "performResourceCleanup_resume rej w =
     (case rej of
        Some x \<Rightarrow> (case cleanup_catch x w of (y, w1) \<Rightarrow> (Raise y, w1))
      | None \<Rightarrow>
          (case emit CleanupCompleted PNone (log Info ''Resource cleanup completed'' w) of
             (Normal, w1) \<Rightarrow> (Normal, w1)
           | (Raise e, w1) \<Rightarrow> (case cleanup_catch e w1 of (y, w2) \<Rightarrow> (Raise y, w2))))"

text \<open>What \<open>Promise.all\<close> is rejected with: the reactions to the wrappers that were
  settled when it was called run before those of the wrappers that settled a turn later.\<close>

definition all_rejected :: "wrapper list \<Rightarrow> wrapper list \<Rightarrow> js_error option" where
  "all_rejected xs ys = (case first_rejected xs of Some x \<Rightarrow> Some x | None \<Rightarrow> first_rejected ys)"

text \<open>The whole operation when nothing else runs between its parts: how the promise of
  \<open>performResourceCleanup\<close> settles, and the coordinator then.\<close>

definition performResourceCleanup :: "coordinator \<Rightarrow> outcome \<times> coordinator" where
  "performResourceCleanup w =
     (case performResourceCleanup_begin w of
        (Inl x, w1) \<Rightarrow> (Raise x, w1)
      | (Inr xs, w1) \<Rightarrow>
          (case resume_all ''Error in resource cleanup callback'' xs w1 of
             (ys, w2) \<Rightarrow> performResourceCleanup_resume (all_rejected xs ys) w2))"

text \<open>\<open>executeShutdownCallbacks\<close>: \<open>None\<close> when it returned at once (no callback),
  otherwise the wrappers \<open>Promise.allSettled\<close> waits for.\<close>

definition executeShutdownCallbacks_begin :: "coordinator \<Rightarrow> wrapper list option \<times> coordinator" where
  "executeShutdownCallbacks_begin w =
     (if length (shutdownCallbacks w) = 0 then (None, w)
      else (case call_all ''Error in shutdown callback'' (shutdownCallbacks w)
                   (log Info ''Executing shutdown callbacks'' w) of
              (xs, w1) \<Rightarrow> (Some xs, w1)))"

definition executeShutdownCallbacks_resume :: "nat \<Rightarrow> coordinator \<Rightarrow> outcome \<times> coordinator" where
  "executeShutdownCallbacks_resume failed w =
     emit ShutdownCallbacksCompleted (PTotals (length (shutdownCallbacks w)) failed)
       (log Info ''Shutdown callbacks completed'' w)"

section \<open>Promise chains\<close>

text \<open>The promise a caller waits on is rejected in this turn: the job that brings the
  rejection to the caller's \<open>catch\<close>. In \<open>executeShutdownSequence\<close> the \<open>await\<close> throws
  one turn later and the \<open>catch\<close> block of \<open>handleSignal\<close> runs in the turn after that;
  in the chain of \<open>transitionToCleanup\<close> the rejection passes the \<open>then\<close> links that
  follow, one per turn.\<close>

fun on_rejected :: "caller \<Rightarrow> js_error \<Rightarrow> job" where
  "on_rejected (MainSeq sig err) e = Hop (Catch (MainSeq sig err) e)"
| "on_rejected CleanupChain e = Hop (Hop (Catch CleanupChain e))"

text \<open>\<open>executeShutdownCallbacks\<close> is fulfilled in this turn: the job that completes the
  shutdown. The \<open>await\<close> continues in the next turn; the \<open>then\<close> callback of the chain
  has returned the promise, whose adoption takes a turn more (two when the promise was
  already fulfilled when it was returned).\<close>

fun after_callbacks :: "caller \<Rightarrow> bool \<Rightarrow> job" where
  "after_callbacks (MainSeq sig err) at_once = AfterCallbacks (MainSeq sig err)"
| "after_callbacks CleanupChain at_once =
     (if at_once then Hop (Hop (AfterCallbacks CleanupChain)) else Hop (AfterCallbacks CleanupChain))"

text \<open>A call of \<open>performResourceCleanup\<close> by a caller: the synchronous part runs, and
  the job of the next turn is queued. With no callback \<open>Promise.all\<close> is fulfilled at
  once; with wrappers that are all settled it settles in the next turn.\<close>

definition start_cleanup :: "caller \<Rightarrow> coordinator \<Rightarrow> coordinator" where
  "start_cleanup c w =
     (case performResourceCleanup_begin w of
        (Inl x, w1) \<Rightarrow> enqueue (on_rejected c x) w1
      | (Inr xs, w1) \<Rightarrow>
          enqueue (if xs = [] then CleanupResume c None
                   else if awaiting xs then CleanupSettle c xs
                   else Hop (CleanupResume c (first_rejected xs))) w1)"

section \<open>Connection registry\<close>

definition generateConnectionId :: "coordinator \<Rightarrow> conn_id \<times> coordinator" where
  "generateConnectionId w =
     ((now w, Suc (connectionCounter w)), w\<lparr>connectionCounter := Suc (connectionCounter w)\<rparr>)"

definition transitionToCleanup :: "coordinator \<Rightarrow> outcome \<times> coordinator" where
  "transitionToCleanup w =
     andThen (emit CleanupStarted PNone
                (log Info ''Transitioning to cleanup phase'' (w\<lparr>state := CLEANUP\<rparr>)))
       (\<lambda>w1. (Normal, start_cleanup CleanupChain w1))"

text \<open>\<open>maxConnections * 0.8\<close> is compared exactly (\<open>size < 0.8 * max\<close> iff
  \<open>5 * size < 4 * max\<close>).\<close>

definition removeConnection :: "conn_id \<Rightarrow> coordinator \<Rightarrow> outcome \<times> coordinator" where
  "removeConnection c w =
     (case map_of (activeConnections w) c of
        None \<Rightarrow> (Normal, w)
      | Some info \<Rightarrow>
          (let w1 = (case timeout info of Some t \<Rightarrow> clearTimeout t w | None \<Rightarrow> w);
               w2 = w1\<lparr>activeConnections := AList.delete c (activeConnections w1)\<rparr>;
               w3 = (if 5 * int (length (activeConnections w2)) < 4 * maxConnections (config w2)
                     then w2\<lparr>maxConnectionsReached := False\<rparr> else w2);
               w4 = log Debug ''Connection removed'' w3
           in andThen (emit ConnectionRemoved (PConn c) w4)
                (\<lambda>w5. if state w5 = DRAINING \<and> length (activeConnections w5) = 0
                       then transitionToCleanup (log Info ''All connections drained successfully'' w5)
                       else (Normal, w5))))"

definition handleConnectionTimeout :: "conn_id \<Rightarrow> coordinator \<Rightarrow> outcome \<times> coordinator" where
  "handleConnectionTimeout c w =
     (case map_of (activeConnections w) c of
        None \<Rightarrow> (Normal, w)
      | Some info \<Rightarrow>
          andThen (destroy (socket info) (log Warn ''Connection timeout, forcing close'' w))
            (\<lambda>w1. andThen (removeConnection c w1)
               (\<lambda>w2. emit ConnectionTimeout (PConn c) w2)))"

text \<open>The listener \<open>registerServer\<close> puts on the server's \<open>connection\<close> event.\<close>

definition onConnection :: "js_socket \<Rightarrow> coordinator \<Rightarrow> outcome \<times> coordinator" where
  "onConnection sock w0 =
     (let (c, w) = generateConnectionId w0;
          full = (int (length (activeConnections w)) \<ge> maxConnections (config w));
          w1 = (if full \<and> \<not> maxConnectionsReached w
                then (log Warn ''Maximum connections reached'' w)\<lparr>maxConnectionsReached := True\<rparr>
                else w)
      in if full \<and> state w1 = ACTIVE then destroy sock w1
         else
           (let info = \<lparr> cid = c, socket = sock, startTime = now w1,
                         remoteAddress = sock_remoteAddress sock,
                         remotePort = sock_remotePort sock, requestCount = 0,
                         lastActivity = now w1, timeout = None \<rparr>;
                w2 = w1\<lparr>activeConnections := AList.update c info (activeConnections w1)\<rparr>;
                (t, w3) = setTimeout (connectionTimeoutMs (config w2)) (ConnTimeout c) w2;
                w4 = w3\<lparr>activeConnections :=
                          AList.update c (info\<lparr>timeout := Some t\<rparr>) (activeConnections w3)\<rparr>;
                w5 = log Debug ''Connection registered'' w4
            in emit ConnectionRegistered (PConn c) w5))"

text \<open>The socket's \<open>error\<close> listener; the host passes it an \<open>Error\<close> object.\<close>

definition onSocketError :: "conn_id \<Rightarrow> coordinator \<Rightarrow> outcome \<times> coordinator" where
  "onSocketError c w = removeConnection c (log Warn ''Connection error'' w)"

definition onSocketData :: "conn_id \<Rightarrow> coordinator \<Rightarrow> coordinator" where
  "onSocketData c w =
     (case map_of (activeConnections w) c of
        None \<Rightarrow> w
      | Some conn \<Rightarrow>
          w\<lparr>activeConnections :=
              AList.update c (conn\<lparr>lastActivity := now w, requestCount := Suc (requestCount conn)\<rparr>)
                (activeConnections w)\<rparr>)"

section \<open>Forced paths and termination\<close>

text \<open>One turn of the loop of \<open>forceCloseConnections\<close>; its \<open>catch\<close> block reads
  \<open>error.message\<close> before it records the error.\<close>

definition destroy_caught :: "connection_info \<Rightarrow> coordinator \<Rightarrow> outcome \<times> coordinator" where
  "destroy_caught info w =
     (case destroy (socket info) w of
        (Normal, w1) \<Rightarrow> (Normal, log Debug ''Force closed connection'' w1)
      | (Raise e, w1) \<Rightarrow>
          andThen (read_prop e ''message'', w1)
            (\<lambda>w2. (Normal, (log Warn ''Error force closing connection'' w2)
                             \<lparr>shutdownErrors := shutdownErrors w2 @ [e]\<rparr>)))"

definition forceCloseConnections :: "coordinator \<Rightarrow> outcome \<times> coordinator" where
  "forceCloseConnections w =
     (let connectionsToClose = map snd (activeConnections w);
          w1 = log Info ''Force closing connections'' w
      in andThen (forEach destroy_caught connectionsToClose w1)
           (\<lambda>w2. emit ConnectionsForceClosed (PCount (length connectionsToClose))
                    (w2\<lparr>activeConnections := []\<rparr>)))"

text \<open>\<open>forceShutdown\<close> ends by arming \<open>setTimeout(() => process.exit(exitCode), 100)\<close>.\<close>

definition forceShutdown :: "int \<Rightarrow> coordinator \<Rightarrow> outcome \<times> coordinator" where
  "forceShutdown exitCode w =
     andThen (forceCloseConnections (log Warn ''Forcing immediate shutdown'' w))
       (\<lambda>w1. let w2 = fold clearTimeout (timers w1) w1;
                  w3 = fold clearInterval (intervals w2) w2
              in andThen (emit ForceShutdown (PExit exitCode) w3)
                   (\<lambda>w4. (Normal, snd (setTimeout 100 (ForceExit exitCode) w4))))"

text \<open>\<open>shutdownStartTime ? Date.now() - shutdownStartTime : 0\<close>: a start time of 0 is
  falsy.\<close>

definition shutdownDuration :: "coordinator \<Rightarrow> int" where
  "shutdownDuration w =
     (case shutdownStartTime w of
        None \<Rightarrow> 0
      | Some t \<Rightarrow> if t = 0 then 0 else int (now w) - int t)"

text \<open>\<open>shutdownErrors.some(err => err.name === 'TimeoutError')\<close>: it stops at the first
  match, and reading \<open>name\<close> throws on an element that is null or undefined.\<close>

fun some_timeout :: "js_error list \<Rightarrow> js_error + bool" where
  "some_timeout [] = Inr False"
| "some_timeout (Nullish # es) = Inl (type_error ''name'')"
| "some_timeout (JsError n m # es) = (if n = ''TimeoutError'' then Inr True else some_timeout es)"

definition select_exit_code :: "js_error option \<Rightarrow> js_error list \<Rightarrow> js_error + int" where
  "select_exit_code err errs =
     (if truthy err \<or> length errs > 0 then
        (case some_timeout errs of
           Inl x \<Rightarrow> Inl x
         | Inr found \<Rightarrow> Inr (if found then EXIT_TIMEOUT else EXIT_RESOURCE_CLEANUP_FAILED))
      else Inr EXIT_GRACEFUL)"

definition completeShutdown :: "string \<Rightarrow> js_error option \<Rightarrow> coordinator \<Rightarrow> outcome \<times> coordinator" where
  "completeShutdown sig err w =
     (let w1 = w\<lparr>state := TERMINATION\<rparr>
      in case select_exit_code err (shutdownErrors w1) of
           Inl x \<Rightarrow> (Raise x, w1)
         | Inr exitCode \<Rightarrow>
             (let summary = \<lparr> sum_signal = sig, sum_duration = shutdownDuration w1,
                              sum_errorsEncountered = length (shutdownErrors w1),
                              sum_finalConnectionCount = length (activeConnections w1),
                              sum_exitCode = exitCode \<rparr>;
                  w2 = log Info ''Graceful shutdown completed'' w1
              in andThen (emit ShutdownCompleted (PSummary summary) w2)
                   (\<lambda>w3. (Normal, process_exit exitCode w3))))"

section \<open>The shutdown sequence\<close>

text \<open>\<open>stopAcceptingConnections\<close>: the promise resolves at once without a server, is
  rejected when the executor throws, and otherwise waits for the callback given to
  \<open>server.close\<close>. The \<open>async\<close> function returns that promise, so the sequence
  continues three turns after a resolution inside the executor, and two turns after a
  later one.\<close>

definition stopAcceptingConnections ::
  "string \<Rightarrow> js_error option \<Rightarrow> coordinator \<Rightarrow> outcome \<times> coordinator" where
  "stopAcceptingConnections sig err w =
     (case server w of
        None \<Rightarrow> (Normal, enqueue (Hop (Hop (AfterStopAccept sig err))) w)
      | Some srv \<Rightarrow>
          (let w1 = log Info ''Stopping server from accepting new connections'' w;
               w2 = record_effect (ServerClose (srv_id srv)) w1
           in case close_fault srv of
                Some e \<Rightarrow> (Raise e, w2)
              | None \<Rightarrow>
                  andThen (emit ServerClosed PNone (w2\<lparr>closeCallbackArmed := True\<rparr>))
                    (\<lambda>w3. (Normal, w3\<lparr>closeWaiter := Some (sig, err)\<rparr>))))"

definition serverCloseCallback :: "js_error option \<Rightarrow> coordinator \<Rightarrow> coordinator" where
  "serverCloseCallback error w =
     (if \<not> closeCallbackArmed w then w
      else
        (let w1 = (case error of
                     Some (JsError n m) \<Rightarrow>
                       (log Warn ''Error closing server'' w)
                         \<lparr>shutdownErrors := shutdownErrors w @ [JsError n m]\<rparr>
                   | _ \<Rightarrow> log Info ''Server stopped accepting new connections'' w)
         in case closeWaiter w1 of
              Some (sig, err) \<Rightarrow>
                enqueue (Hop (AfterStopAccept sig err)) (w1\<lparr>closeWaiter := None\<rparr>)
            | None \<Rightarrow> w1))"

datatype drain_result = DrainReturned | DrainPending | DrainThrown js_error

definition drainConnections ::
  "string \<Rightarrow> js_error option \<Rightarrow> coordinator \<Rightarrow> drain_result \<times> coordinator" where
  "drainConnections sig err w =
     (if length (activeConnections w) = 0 then
        (DrainReturned, log Info ''No active connections to drain'' w)
      else
        (let w1 = (log Info ''Starting connection draining'' w)\<lparr>state := DRAINING\<rparr>
         in case emit DrainingStarted (PCount (length (activeConnections w1))) w1 of
              (Raise e, w2) \<Rightarrow> (DrainThrown e, w2)
            | (Normal, w2) \<Rightarrow>
                (let (t, w3) = setTimeout (gracePeriodMs (config w2)) GraceTimeout w2;
                     w4 = w3\<lparr>timers := set_add t (timers w3), drainWaiter := Some (t, sig, err)\<rparr>;
                     w5 = checkConnections t w4;
                     w6 = w5\<lparr>listeners := listeners w5 @ [CheckConnections t]\<rparr>
                 in (DrainPending, w6))))"

text \<open>The grace timer's callback.\<close>

definition graceTimeoutExpired :: "nat \<Rightarrow> coordinator \<Rightarrow> outcome \<times> coordinator" where
  "graceTimeoutExpired t w =
     andThen (forceCloseConnections
                (log Warn ''Grace period expired, forcing connection termination'' w))
       (\<lambda>w1. (Normal, resolveDrain t w1))"

text \<open>The \<open>catch\<close> block of \<open>handleSignal\<close>: the log line reads
  \<open>shutdownError.message\<close> before the error is recorded.\<close>

definition handleSignal_catch :: "js_error \<Rightarrow> coordinator \<Rightarrow> outcome \<times> coordinator" where
  "handleSignal_catch shutdownError w =
     andThen (read_prop shutdownError ''message'', w)
       (\<lambda>w1. forceShutdown EXIT_SIGNAL_ERROR
                ((log Error ''Error during graceful shutdown'' w1)
                   \<lparr>shutdownErrors := shutdownErrors w1 @ [shutdownError]\<rparr>))"

text \<open>\<open>executeShutdownSequence\<close> up to its first \<open>await\<close>; a rejection of
  \<open>stopAcceptingConnections\<close> reaches the \<open>catch\<close> of \<open>handleSignal\<close> four turns
  later.\<close>

definition executeShutdownSequence :: "string \<Rightarrow> js_error option \<Rightarrow> coordinator \<Rightarrow> coordinator" where
  "executeShutdownSequence sig err w =
     (case stopAcceptingConnections sig err w of
        (Normal, w1) \<Rightarrow> w1
      | (Raise e, w1) \<Rightarrow> enqueue (Hop (Hop (Hop (Catch (MainSeq sig err) e)))) w1)"

text \<open>\<open>handleSignal\<close>: the outcome \<open>Raise\<close> is a rejection of the promise it returns
  (the \<open>catch\<close> block itself threw).\<close>

definition handleSignal :: "string \<Rightarrow> js_error option \<Rightarrow> coordinator \<Rightarrow> outcome \<times> coordinator" where
  "handleSignal sig err w =
     (if shutdownInitiated w then
        (Normal, log Warn (''Received '' @ sig @ '' signal during shutdown, ignoring'') w)
      else
        (let w1 = log Info (''Received '' @ sig @ '' signal, initiating graceful shutdown'') w;
             w2 = w1\<lparr>shutdownInitiated := True, shutdownStartTime := Some (now w1),
                     state := SHUTDOWN_PENDING\<rparr>
         in case emit ShutdownInitiated (PTrigger sig err) w2 of
              (Raise e, w3) \<Rightarrow> handleSignal_catch e w3
            | (Normal, w3) \<Rightarrow> (Normal, executeShutdownSequence sig err w3)))"

definition shutdown :: "string \<Rightarrow> coordinator \<Rightarrow> outcome \<times> coordinator" where
  "shutdown reason w = handleSignal reason None (log Info ''Programmatic shutdown requested'' w)"

text \<open>The process-level handlers installed by \<open>setupSignalHandlers\<close>; neither keeps the
  promise of \<open>handleSignal\<close>. Without them the host ends the process with status 1. The
  handler of uncaught exceptions reads \<open>error.message\<close>: when that throws, the host ends
  the process with status 7. The handler of unhandled rejections reads
  \<open>reason.toString\<close>: when that throws, the host has an uncaught exception.\<close>

definition uncaughtException :: "js_error \<Rightarrow> coordinator \<Rightarrow> coordinator" where
  "uncaughtException error w =
     (let w1 = record_effect (UncaughtException error) w
      in if faultHandlers w1 then
           (case read_prop error ''message'' of
              Raise x \<Rightarrow> process_exit 7 w1
            | Normal \<Rightarrow>
                (case handleSignal ''UNCAUGHT_EXCEPTION'' (Some error)
                        (log Error ''Uncaught exception, initiating emergency shutdown'' w1) of
                   (Normal, w2) \<Rightarrow> w2
                 | (Raise e, w2) \<Rightarrow> reject e w2))
         else process_exit 1 w1)"

definition unhandledRejection :: "js_error \<Rightarrow> coordinator \<Rightarrow> coordinator" where
  "unhandledRejection reason w =
     (let w1 = record_effect (UnhandledRejection reason) w
      in if faultHandlers w1 then
           (case read_prop reason ''toString'' of
              Raise x \<Rightarrow> uncaughtException x w1
            | Normal \<Rightarrow>
                (case handleSignal ''UNHANDLED_REJECTION'' (Some reason)
                        (log Error ''Unhandled promise rejection, initiating emergency shutdown'' w1) of
                   (Normal, w2) \<Rightarrow> w2
                 | (Raise e, w2) \<Rightarrow> reject e w2))
         else process_exit 1 w1)"

section \<open>Promise jobs\<close>

text \<open>The \<open>catch\<close> of each chain; that of \<open>transitionToCleanup\<close> reads
  \<open>error.message\<close> for its log line.\<close>

fun caller_catch :: "caller \<Rightarrow> js_error \<Rightarrow> coordinator \<Rightarrow> outcome \<times> coordinator" where
  "caller_catch (MainSeq sig err) e w = handleSignal_catch e w"
| "caller_catch CleanupChain e w =
     andThen (read_prop e ''message'', w)
       (\<lambda>w1. forceShutdown EXIT_RESOURCE_CLEANUP_FAILED (log Error ''Error during cleanup phase'' w1))"

fun caller_complete :: "caller \<Rightarrow> coordinator \<Rightarrow> outcome \<times> coordinator" where
  "caller_complete (MainSeq sig err) w = completeShutdown sig err w"
| "caller_complete CleanupChain w = completeShutdown ''UNKNOWN'' None w"

fun exec_job :: "job \<Rightarrow> coordinator \<Rightarrow> coordinator" where
  "exec_job (AfterStopAccept sig err) w =
     (case drainConnections sig err w of
        (DrainReturned, w1) \<Rightarrow> enqueue (AfterDrain sig err) w1
      | (DrainPending, w1) \<Rightarrow> w1
      | (DrainThrown e, w1) \<Rightarrow> enqueue (Hop (Catch (MainSeq sig err) e)) w1)"
| "exec_job (AfterDrain sig err) w = start_cleanup (MainSeq sig err) w"
| "exec_job (CleanupSettle c xs) w =
     (case resume_all ''Error in resource cleanup callback'' xs w of
        (ys, w1) \<Rightarrow>
          enqueue (case first_rejected xs of
                     Some x \<Rightarrow> CleanupResume c (Some x)
                   | None \<Rightarrow> Hop (CleanupResume c (first_rejected ys))) w1)"
| "exec_job (CleanupResume c rej) w =
     (case performResourceCleanup_resume rej w of
        (Normal, w1) \<Rightarrow> enqueue (AfterCleanup c) w1
      | (Raise e, w1) \<Rightarrow> enqueue (on_rejected c e) w1)"
| "exec_job (AfterCleanup c) w =
     (case executeShutdownCallbacks_begin w of
        (None, w1) \<Rightarrow> enqueue (after_callbacks c True) w1
      | (Some xs, w1) \<Rightarrow>
          enqueue (if awaiting xs then CallbacksSettle c xs
                   else Hop (CallbacksResume c (rejected_count xs))) w1)"
| "exec_job (CallbacksSettle c xs) w =
     (case resume_all ''Error in shutdown callback'' xs w of
        (ys, w1) \<Rightarrow> enqueue (Hop (CallbacksResume c (rejected_count ys))) w1)"
| "exec_job (CallbacksResume c failed) w =
     (case executeShutdownCallbacks_resume failed w of
        (Normal, w1) \<Rightarrow> enqueue (after_callbacks c False) w1
      | (Raise e, w1) \<Rightarrow> enqueue (on_rejected c e) w1)"
| "exec_job (AfterCallbacks c) w =
     (case caller_complete c w of
        (Normal, w1) \<Rightarrow> w1
      | (Raise e, w1) \<Rightarrow> enqueue (Catch c e) w1)"
| "exec_job (Catch c e) w =
     (case caller_catch c e w of
        (Normal, w1) \<Rightarrow> w1
      | (Raise e', w1) \<Rightarrow> reject e' w1)"
| "exec_job (Hop j) w = enqueue j w"

section \<open>Draining the job queue\<close>

text \<open>Every job queues at most one successor, of lower rank; a trigger that passes the
  guard of \<open>handleSignal\<close> does so once.\<close>

fun job_rank :: "job \<Rightarrow> nat" where
  "job_rank (AfterStopAccept _ _) = 34"
| "job_rank (AfterDrain _ _) = 30"
| "job_rank (CleanupSettle _ _) = 26"
| "job_rank (CleanupResume _ _) = 22"
| "job_rank (AfterCleanup _) = 18"
| "job_rank (CallbacksSettle _ _) = 14"
| "job_rank (CallbacksResume _ _) = 10"
| "job_rank (AfterCallbacks _) = 6"
| "job_rank (Catch _ _) = 2"
| "job_rank (Hop j) = Suc (job_rank j)"

definition potential :: "coordinator \<Rightarrow> nat" where
  "potential w =
     (if shutdownInitiated w then 0 else 40) + sum_list (map job_rank (jobs w))
       + length (rejections w)"

text \<open>After each host callback the queued jobs run, first queued first; when the queue is
  empty the host reports the pending unhandled rejections, which may queue jobs again.
  Nothing runs once the process has exited.\<close>

function run_jobs :: "coordinator \<Rightarrow> coordinator" where
  "run_jobs w =
     (if exited w \<noteq> None then w
      else case jobs w of
             j # js \<Rightarrow> run_jobs (exec_job j (w\<lparr>jobs := js\<rparr>))
           | [] \<Rightarrow>
               (case rejections w of
                  [] \<Rightarrow> w
                | r # rs \<Rightarrow> run_jobs (unhandledRejection r (w\<lparr>rejections := rs\<rparr>))))"
  by pat_completeness auto

section \<open>Host callbacks and runs\<close>

definition onShutdown :: "callback \<Rightarrow> coordinator \<Rightarrow> coordinator" where
  "onShutdown cb w =
     log Debug ''Shutdown callback registered'' (w\<lparr>shutdownCallbacks := shutdownCallbacks w @ [cb]\<rparr>)"

definition onResourceCleanup :: "callback \<Rightarrow> coordinator \<Rightarrow> coordinator" where
  "onResourceCleanup cb w =
     log Debug ''Resource cleanup callback registered''
       (w\<lparr>resourceCleanupCallbacks := resourceCleanupCallbacks w @ [cb]\<rparr>)"

definition trackTimer :: "nat \<Rightarrow> coordinator \<Rightarrow> coordinator" where
  "trackTimer t w = w\<lparr>timers := set_add t (timers w)\<rparr>"

definition trackInterval :: "nat \<Rightarrow> coordinator \<Rightarrow> coordinator" where
  "trackInterval t w = w\<lparr>intervals := set_add t (intervals w)\<rparr>"

definition trackEventListener :: "emitter_target \<Rightarrow> string \<Rightarrow> nat \<Rightarrow> coordinator \<Rightarrow> coordinator" where
  "trackEventListener tg ev h w =
     (let regs = (case map_of (eventListeners w) tg of Some rs \<Rightarrow> rs | None \<Rightarrow> []);
          w1 = w\<lparr>eventListeners :=
                   AList.update tg (regs @ [\<lparr> reg_event = ev, reg_handler = h \<rparr>]) (eventListeners w)\<rparr>
      in record_effect (TargetOn (tgt_id tg) ev h) w1)"

text \<open>A timer fires once, not before it is due.\<close>

fun timer_fire :: "nat \<Rightarrow> timer_action \<Rightarrow> coordinator \<Rightarrow> outcome \<times> coordinator" where
  "timer_fire t (ConnTimeout c) w = handleConnectionTimeout c w"
| "timer_fire t GraceTimeout w = graceTimeoutExpired t w"
| "timer_fire t (ForceExit code) w = (Normal, process_exit code w)"

definition fireTimer :: "nat \<Rightarrow> coordinator \<Rightarrow> outcome \<times> coordinator" where
  "fireTimer t w =
     (case find (\<lambda>p. fst p = t) (pendingTimers w) of
        None \<Rightarrow> (Normal, w)
      | Some (_, due, act) \<Rightarrow>
          if due \<le> now w then
            timer_fire t act (w\<lparr>pendingTimers := filter (\<lambda>p. fst p \<noteq> t) (pendingTimers w)\<rparr>)
          else (Normal, w))"

text \<open>What the host can do to the coordinator: call its interface, deliver a signal or a
  fault, and run the callbacks it holds (connection, socket, timer, server close).\<close>

datatype event =
    Trigger string "js_error option"
  | UncaughtFault js_error
  | UnhandledPromise js_error
  | Shutdown string
  | Connection js_socket
  | SocketClose conn_id
  | SocketError conn_id
  | SocketData conn_id
  | TimerFires nat
  | ServerCloseDone "js_error option"
  | RegisterServer "js_server option"
  | OnShutdown callback
  | OnResourceCleanup callback
  | TrackTimer nat
  | TrackInterval nat
  | TrackEventListener emitter_target string nat
  | On event_name "js_error option"

text \<open>An exception leaving a host callback is an uncaught exception. The promise of
  \<open>handleSignal\<close> is dropped by the signal handlers, and the caller of \<open>shutdown\<close>
  is taken to drop its promise too: a rejection is an unhandled rejection. An exception of
  a synchronous interface call goes back to the caller.\<close>

definition host_callback :: "outcome \<times> coordinator \<Rightarrow> coordinator" where
  "host_callback r = (case r of (Normal, w) \<Rightarrow> w | (Raise e, w) \<Rightarrow> uncaughtException e w)"

definition async_call :: "outcome \<times> coordinator \<Rightarrow> coordinator" where
  "async_call r = (case r of (Normal, w) \<Rightarrow> w | (Raise e, w) \<Rightarrow> reject e w)"

fun deliver :: "event \<Rightarrow> coordinator \<Rightarrow> coordinator" where
  "deliver (Trigger sig err) w = async_call (handleSignal sig err w)"
| "deliver (UncaughtFault e) w = uncaughtException e w"
| "deliver (UnhandledPromise e) w = unhandledRejection e w"
| "deliver (Shutdown reason) w = async_call (shutdown reason w)"
| "deliver (Connection sock) w = (if server w = None then w else host_callback (onConnection sock w))"
| "deliver (SocketClose c) w = host_callback (removeConnection c w)"
| "deliver (SocketError c) w = host_callback (onSocketError c w)"
| "deliver (SocketData c) w = onSocketData c w"
| "deliver (TimerFires t) w = host_callback (fireTimer t w)"
| "deliver (ServerCloseDone e) w = serverCloseCallback e w"
| "deliver (RegisterServer arg) w = snd (registerServer arg w)"
| "deliver (OnShutdown cb) w = onShutdown cb w"
| "deliver (OnResourceCleanup cb) w = onResourceCleanup cb w"
| "deliver (TrackTimer t) w = trackTimer t w"
| "deliver (TrackInterval t) w = trackInterval t w"
| "deliver (TrackEventListener tg ev h) w = trackEventListener tg ev h w"
| "deliver (On ev f) w = w\<lparr>listeners := listeners w @ [UserListener ev f]\<rparr>"

text \<open>One turn of the event loop at clock time \<open>t\<close>: nothing runs after
  \<open>process.exit\<close>.\<close>

definition step :: "nat \<times> event \<Rightarrow> coordinator \<Rightarrow> coordinator" where
  "step te w =
     (if exited w \<noteq> None then w else run_jobs (deliver (snd te) (w\<lparr>now := fst te\<rparr>)))"

definition run :: "(nat \<times> event) list \<Rightarrow> coordinator \<Rightarrow> coordinator" where
  "run evs w = fold step evs w"

section \<open>Notions used in the statements and proofs\<close>

text \<open>An observation \<open>obs\<close> of the coordinator that does not depend on the fields an
  operation writes is unchanged by the operation.\<close>

definition indep :: "(('a \<Rightarrow> 'a) \<Rightarrow> coordinator \<Rightarrow> coordinator) \<Rightarrow> (coordinator \<Rightarrow> 'b) \<Rightarrow> bool" where
  "indep upd obs \<longleftrightarrow> (\<forall>f w. obs (upd f w) = obs w)"

text \<open>\<open>later w w'\<close>: every recorded effect of \<open>w\<close> is still recorded in \<open>w'\<close> and no
  timer is pending in \<open>w'\<close> that was not pending in \<open>w\<close>.\<close>

definition later :: "coordinator \<Rightarrow> coordinator \<Rightarrow> bool" where
  "later w w' \<longleftrightarrow> set (trace w) \<subseteq> set (trace w') \<and> set (pendingTimers w') \<subseteq> set (pendingTimers w)"

text \<open>The two halves of \<open>removeConnection\<close> for a tracked id: up to the notification,
  and the check for the end of the drain after it.\<close>

definition removeConnection_delete :: "conn_id \<Rightarrow> connection_info \<Rightarrow> coordinator \<Rightarrow> coordinator" where
  "removeConnection_delete c info w =
     (let w1 = (case timeout info of Some t \<Rightarrow> clearTimeout t w | None \<Rightarrow> w);
          w2 = w1\<lparr>activeConnections := AList.delete c (activeConnections w1)\<rparr>;
          w3 = (if 5 * int (length (activeConnections w2)) < 4 * maxConnections (config w2)
                then w2\<lparr>maxConnectionsReached := False\<rparr> else w2)
      in log Debug ''Connection removed'' w3)"

definition removeConnection_check :: "coordinator \<Rightarrow> outcome \<times> coordinator" where
  "removeConnection_check w5 =
     (if state w5 = DRAINING \<and> length (activeConnections w5) = 0
      then transitionToCleanup (log Info ''All connections drained successfully'' w5)
      else (Normal, w5))"

text \<open>\<open>shrinks w w'\<close>: the configuration and the id counter are the same, the state has
  not gone back to \<open>ACTIVE\<close>, and the tracked ids of \<open>w'\<close> are tracked ids of \<open>w\<close> in
  the same order.\<close>

definition shrinks :: "coordinator \<Rightarrow> coordinator \<Rightarrow> bool" where
  "shrinks w w' \<longleftrightarrow>
     config w' = config w \<and> connectionCounter w' = connectionCounter w
     \<and> (state w' = state w \<or> state w' \<noteq> ACTIVE)
     \<and> (\<exists>P. map fst (activeConnections w') = filter P (map fst (activeConnections w)))"

definition core :: "coordinator \<Rightarrow> config \<times> nat \<times> shutdown_state \<times> (conn_id \<times> connection_info) list" where
  "core w = (config w, connectionCounter w, state w, activeConnections w)"

definition core_state :: "coordinator \<Rightarrow> config \<times> nat \<times> shutdown_state" where
  "core_state w = (config w, connectionCounter w, state w)"

definition core_registry :: "coordinator \<Rightarrow> config \<times> nat \<times> (conn_id \<times> connection_info) list" where
  "core_registry w = (config w, connectionCounter w, activeConnections w)"

text \<open>The record the connection listener stores for a socket accepted in \<open>w\<close>.\<close>

definition new_connection_info :: "js_socket \<Rightarrow> coordinator \<Rightarrow> connection_info" where
  "new_connection_info sock w =
     \<lparr> cid = (now w, Suc (connectionCounter w)), socket = sock, startTime = now w,
       remoteAddress = sock_remoteAddress sock, remotePort = sock_remotePort sock,
       requestCount = 0, lastActivity = now w, timeout = Some (nextTimer w) \<rparr>"

definition rejects :: "coordinator \<Rightarrow> bool" where
  "rejects w \<longleftrightarrow> int (length (activeConnections w)) \<ge> maxConnections (config w) \<and> state w = ACTIVE"

text \<open>The coordinator when the listener has drawn the id and warned about the limit.\<close>

definition limit_checked :: "coordinator \<Rightarrow> coordinator" where
  "limit_checked w0 =
     (let w = w0\<lparr>connectionCounter := Suc (connectionCounter w0)\<rparr>
      in if int (length (activeConnections w)) \<ge> maxConnections (config w) \<and> \<not> maxConnectionsReached w
         then (log Warn ''Maximum connections reached'' w)\<lparr>maxConnectionsReached := True\<rparr>
         else w)"

definition within_limit :: "coordinator \<Rightarrow> bool" where
  "within_limit w \<longleftrightarrow>
     (state w = ACTIVE \<longrightarrow> int (length (activeConnections w)) \<le> maxConnections (config w))"

text \<open>Every tracked id was drawn from the counter: its number is at most the counter.\<close>

definition ids_bounded :: "coordinator \<Rightarrow> bool" where
  "ids_bounded w \<longleftrightarrow> (\<forall>c \<in> fst ` set (activeConnections w). snd c \<le> connectionCounter w)"

text \<open>What a run shows of the phases: how often a trigger was accepted, how often resource
  cleanup began and in which state, how often each callback was called, and the outcome
  that was reported.\<close>

fun sequence_started :: "effect \<Rightarrow> bool" where
  "sequence_started (Emit ev p) = (ev = ShutdownInitiated)"
| "sequence_started _ = False"

fun cleanup_state :: "effect \<Rightarrow> shutdown_state list" where
  "cleanup_state (Log l m s) = (if m = ''Starting resource cleanup'' then [s] else [])"
| "cleanup_state _ = []"

fun callback_invoked :: "nat \<Rightarrow> effect \<Rightarrow> bool" where
  "callback_invoked n (CallbackInvoked k) = (k = n)"
| "callback_invoked n _ = False"

fun reported_outcome :: "effect \<Rightarrow> shutdown_summary list" where
  "reported_outcome (Emit ev (PSummary s)) = [s]"
| "reported_outcome _ = []"

fun forced_close :: "effect \<Rightarrow> nat list" where
  "forced_close (Emit ev (PCount n)) = (if ev = ConnectionsForceClosed then [n] else [])"
| "forced_close _ = []"

definition cleanup_states :: "coordinator \<Rightarrow> shutdown_state list" where
  "cleanup_states w = concat (map cleanup_state (trace w))"

definition phase_runs :: "coordinator \<Rightarrow> nat \<times> nat \<times> nat \<times> nat \<times> int option" where
  "phase_runs w =
     (length (filter sequence_started (trace w)),
      length (cleanup_states w),
      length (filter (callback_invoked 1) (trace w)),
      length (filter (callback_invoked 2) (trace w)),
      exited w)"

definition shutdown_report ::
  "coordinator \<Rightarrow> int option \<times> shutdown_summary list \<times> nat list \<times> nat" where
  "shutdown_report w =
     (exited w, concat (map reported_outcome (trace w)), concat (map forced_close (trace w)),
      length (activeConnections w))"

text \<open>What resource cleanup leaves: whether its promise was fulfilled, the tracked timers
  and intervals, the targets that still have tracked listeners, the targets whose
  \<open>removeListener\<close> was called, the callbacks that were called, and the recorded
  errors.\<close>

fun thrown_name :: "js_error \<Rightarrow> string" where
  "thrown_name Nullish = ''undefined''"
| "thrown_name (JsError n m) = n"

fun listener_removed :: "effect \<Rightarrow> nat list" where
  "listener_removed (RemoveListener tg ev h) = [tg]"
| "listener_removed _ = []"

fun callback_called :: "effect \<Rightarrow> nat list" where
  "callback_called (CallbackInvoked k) = [k]"
| "callback_called _ = []"

definition cleanup_report ::
  "outcome \<times> coordinator \<Rightarrow> bool \<times> nat list \<times> nat list \<times> nat list \<times> nat list \<times> nat list \<times> string list" where
  "cleanup_report r =
     (fst r = Normal, timers (snd r), intervals (snd r), map (\<lambda>p. tgt_id (fst p)) (eventListeners (snd r)),
      concat (map listener_removed (trace (snd r))), concat (map callback_called (trace (snd r))),
      map thrown_name (shutdownErrors (snd r)))"

text \<open>What a run shows of the forced path: the exit status, the recorded errors, the
  statuses \<open>force-shutdown\<close> was emitted with, the timers that were cleared, the sockets
  that were destroyed, the servers that were closed, and the state.\<close>

fun forced_status :: "effect \<Rightarrow> int list" where
  "forced_status (Emit ev (PExit c)) = (if ev = ForceShutdown then [c] else [])"
| "forced_status _ = []"

fun cleared_timer :: "effect \<Rightarrow> nat list" where
  "cleared_timer (ClearTimeout t) = [t]"
| "cleared_timer _ = []"

fun destroyed_socket :: "effect \<Rightarrow> nat list" where
  "destroyed_socket (SocketDestroy s) = [s]"
| "destroyed_socket _ = []"

fun closed_server :: "effect \<Rightarrow> nat list" where
  "closed_server (ServerClose s) = [s]"
| "closed_server _ = []"

definition forced_path_report ::
  "coordinator \<Rightarrow> int option \<times> string list \<times> int list \<times> nat list \<times> nat list \<times> nat list \<times> shutdown_state" where
  "forced_path_report w =
     (exited w, map thrown_name (shutdownErrors w), concat (map forced_status (trace w)),
      concat (map cleared_timer (trace w)), concat (map destroyed_socket (trace w)),
      concat (map closed_server (trace w)), state w)"

section \<open>Sample inputs and runs\<close>

text \<open>Sample inputs: a well-formed server, a server object without \<open>close\<close>, sockets.\<close>

definition sample_server :: "nat \<Rightarrow> js_server" where
  "sample_server n = \<lparr> srv_id = n, has_close = True, close_fault = None \<rparr>"

definition closeless_server :: js_server where
  "closeless_server = \<lparr> srv_id = 9, has_close = False, close_fault = None \<rparr>"

definition sample_socket :: "nat \<Rightarrow> js_socket" where
  "sample_socket n = \<lparr> sock_id = n, sock_remoteAddress = ''10.0.0.1'',
     sock_remotePort = 4000 + n, destroy_fault = None \<rparr>"

definition boom :: js_error where
  "boom = JsError ''Error'' ''boom''"

text \<open>A tracker seeded through the interface: a timer, an interval, tracked listeners on
  three targets, of which the second's \<open>removeListener\<close> may throw, and two cleanup
  callbacks, of which the second may fail.\<close>

definition seeded_tracker :: "js_error option \<Rightarrow> cb_behaviour \<Rightarrow> coordinator" where
  "seeded_tracker fault result =
     onResourceCleanup \<lparr> cb_id = 2, cb_result = result \<rparr>
       (onResourceCleanup \<lparr> cb_id = 1, cb_result = Fulfils \<rparr>
         (trackEventListener \<lparr> tgt_id = 3, removeListener_fault = None \<rparr> ''end'' 13
           (trackEventListener \<lparr> tgt_id = 2, removeListener_fault = fault \<rparr> ''data'' 12
             (trackEventListener \<lparr> tgt_id = 1, removeListener_fault = None \<rparr> ''data'' 11
               (trackInterval 5 (trackTimer 7 (createShutdownCoordinator no_options)))))))"

text \<open>A coordinator with a registered server and one tracked connection, accepted at
  clock time 2.\<close>

definition one_connection :: coordinator where
  "one_connection =
     run [(1, RegisterServer (Some (sample_server 1))), (2, Connection (sample_socket 1))]
       (createShutdownCoordinator no_options)"

definition first_connection_info :: connection_info where
  "first_connection_info =
     \<lparr> cid = (2, 1), socket = sample_socket 1, startTime = 2, remoteAddress = ''10.0.0.1'',
       remotePort = 4001, requestCount = 0, lastActivity = 2, timeout = Some 0 \<rparr>"

text \<open>A coordinator limited to one connection, with that connection tracked.\<close>

definition one_slot :: options where
  "one_slot = no_options\<lparr>opt_maxConnections := Some 1\<rparr>"

definition full_house :: coordinator where
  "full_house =
     run [(1, RegisterServer (Some (sample_server 1))), (2, Connection (sample_socket 1))]
       (createShutdownCoordinator one_slot)"

text \<open>One tracked connection that closes by itself 10 ms into the drain; a cleanup callback
  (1) and a shutdown callback (2) are registered; a second signal arrives meanwhile.\<close>

definition natural_drain_run :: "(nat \<times> event) list" where
  "natural_drain_run =
     [(1, RegisterServer (Some (sample_server 1))),
      (1, OnResourceCleanup \<lparr> cb_id = 1, cb_result = Fulfils \<rparr>),
      (1, OnShutdown \<lparr> cb_id = 2, cb_result = Fulfils \<rparr>),
      (2, Connection (sample_socket 1)),
      (1000, Trigger ''SIGTERM'' None),
      (1000, ServerCloseDone None),
      (1005, Trigger ''SIGINT'' None),
      (1010, SocketClose (2, 1))]"

text \<open>Three tracked connections, grace period 100 ms, shutdown triggered at clock time 1000:
  two connections close after 10 and 20 ms, the grace timer (handle 3) fires after 100 ms,
  the third socket reports its close after 150 ms.\<close>

definition grace_expiry_run :: "(nat \<times> event) list" where
  "grace_expiry_run =
     [(1, RegisterServer (Some (sample_server 1))),
      (2, Connection (sample_socket 1)), (3, Connection (sample_socket 2)),
      (4, Connection (sample_socket 3)),
      (1000, Trigger ''SIGTERM'' None),
      (1000, ServerCloseDone None),
      (1010, SocketClose (2, 1)), (1020, SocketClose (3, 2)),
      (1100, TimerFires 3),
      (1150, SocketClose (4, 3))]"

text \<open>The sequence with nothing to drain, and the sequence with one connection that is
  force-closed when the grace timer (handle 1) fires.\<close>

definition forced_drain_run :: "(nat \<times> event) list" where
  "forced_drain_run =
     [(1, RegisterServer (Some (sample_server 1))),
      (2, Connection (sample_socket 1)),
      (1000, Trigger ''SIGTERM'' None),
      (1000, ServerCloseDone None),
      (1100, TimerFires 1)]"

text \<open>Three runs in which a fault is raised after the trigger has passed the guard. A
  server, one connection and a timer (77) are tracked. In the first a listener of
  \<open>shutdown-initiated\<close> throws an error object; the timer of the forced exit (handle 1)
  fires 100 ms later. In the second that listener throws \<open>undefined\<close>. In the third a
  listener of \<open>connections-force-closed\<close> throws an error object, and the grace timer
  (handle 1) fires with the connection still open.\<close>

definition caught_fault_run :: "(nat \<times> event) list" where
  "caught_fault_run =
     [(1, RegisterServer (Some (sample_server 1))),
      (2, Connection (sample_socket 1)),
      (3, TrackTimer 77),
      (4, On ShutdownInitiated (Some boom)),
      (1000, Trigger ''SIGTERM'' None),
      (1100, TimerFires 1)]"

definition nullish_fault_run :: "(nat \<times> event) list" where
  "nullish_fault_run =
     [(1, RegisterServer (Some (sample_server 1))),
      (2, Connection (sample_socket 1)),
      (3, TrackTimer 77),
      (4, On ShutdownInitiated (Some Nullish)),
      (1000, Trigger ''SIGTERM'' None)]"

definition grace_fault_run :: "(nat \<times> event) list" where
  "grace_fault_run =
     [(1, RegisterServer (Some (sample_server 1))),
      (2, Connection (sample_socket 1)),
      (3, TrackTimer 77),
      (4, On ConnectionsForceClosed (Some boom)),
      (1000, Trigger ''SIGTERM'' None),
      (1000, ServerCloseDone None),
      (1100, TimerFires 1)]"

section \<open>Frame lemmas\<close>

lemma indepD: "indep upd obs \<Longrightarrow> obs (upd f w) = obs w"
  by (simp add: indep_def)

lemma record_effect_frame: "indep trace_update obs \<Longrightarrow> obs (record_effect x w) = obs w"
  by (simp add: record_effect_def indep_def)

lemma log_frame: "indep trace_update obs \<Longrightarrow> obs (log l m w) = obs w"
  by (simp add: log_def record_effect_frame)

lemma fold_frame:
  assumes "\<And>x w. obs (f x w) = obs w"
  shows "obs (fold f xs w) = obs w"
  using assms by (induction xs arbitrary: w) simp_all

lemma clearTimeout_frame:
  "indep trace_update obs \<Longrightarrow> indep pendingTimers_update obs \<Longrightarrow> obs (clearTimeout t w) = obs w"
  by (simp add: clearTimeout_def record_effect_frame indepD)

lemma clearInterval_frame: "indep trace_update obs \<Longrightarrow> obs (clearInterval t w) = obs w"
  by (simp add: clearInterval_def record_effect_frame)

lemma setTimeout_frame:
  "indep nextTimer_update obs \<Longrightarrow> indep pendingTimers_update obs \<Longrightarrow> obs (snd (setTimeout d a w)) = obs w"
  by (simp add: setTimeout_def indepD)

lemma destroy_frame: "indep trace_update obs \<Longrightarrow> obs (snd (destroy s w)) = obs w"
  by (simp add: destroy_def record_effect_frame)

lemma enqueue_frame: "indep jobs_update obs \<Longrightarrow> obs (enqueue j w) = obs w"
  by (simp add: enqueue_def indepD)

lemma reject_frame: "indep rejections_update obs \<Longrightarrow> obs (reject e w) = obs w"
  by (simp add: reject_def indepD)

lemma process_exit_frame:
  "indep trace_update obs \<Longrightarrow> indep exited_update obs \<Longrightarrow> obs (process_exit c w) = obs w"
  by (simp add: process_exit_def record_effect_frame indepD)

lemma resolveDrain_frame:
  "indep jobs_update obs \<Longrightarrow> indep drainWaiter_update obs \<Longrightarrow> obs (resolveDrain t w) = obs w"
  by (simp add: resolveDrain_def enqueue_frame indepD split: option.splits)

lemma checkConnections_frame:
  assumes "indep trace_update obs" "indep pendingTimers_update obs" "indep timers_update obs"
    "indep jobs_update obs" "indep drainWaiter_update obs"
  shows "obs (checkConnections t w) = obs w"
  using assms
  by (simp add: checkConnections_def Let_def resolveDrain_frame log_frame clearTimeout_frame indepD)

lemma run_listeners_frame:
  assumes "indep trace_update obs" "indep pendingTimers_update obs" "indep timers_update obs"
    "indep jobs_update obs" "indep drainWaiter_update obs"
  shows "obs (snd (run_listeners ls ev w)) = obs w"
  using assms
  by (induction ls ev w rule: run_listeners.induct)
     (simp_all add: checkConnections_frame split: option.splits)

lemma emit_frame:
  assumes "indep trace_update obs" "indep pendingTimers_update obs" "indep timers_update obs"
    "indep jobs_update obs" "indep drainWaiter_update obs"
  shows "obs (snd (emit ev p w)) = obs w"
  using assms by (simp add: emit_def run_listeners_frame record_effect_frame)

lemma run_listeners_quiet:
  assumes "ev \<noteq> ConnectionRemoved"
  shows "run_listeners ls ev w = (fst (run_listeners ls ev w), w)"
  using assms
  by (induction ls ev w rule: run_listeners.induct) (simp_all split: option.splits)

lemma emit_quiet:
  assumes "ev \<noteq> ConnectionRemoved"
  shows "snd (emit ev p w) = record_effect (Emit ev p) w"
  using run_listeners_quiet [OF assms, of "listeners w" "record_effect (Emit ev p) w"]
  by (simp add: emit_def record_effect_def) (metis snd_conv)

lemma emit_quiet_frame:
  "ev \<noteq> ConnectionRemoved \<Longrightarrow> indep trace_update obs \<Longrightarrow> obs (snd (emit ev p w)) = obs w"
  by (simp add: emit_quiet record_effect_frame)

lemma andThen_frame:
  assumes "obs (snd r) = a" "\<And>w. obs (snd (k w)) = obs w"
  shows "obs (snd (andThen r k)) = a"
  using assms by (cases r; cases "fst r") (auto simp: andThen_def)

lemma forEach_frame:
  assumes "\<And>x w. obs (snd (f x w)) = obs w"
  shows "obs (snd (forEach f xs w)) = obs w"
proof (induction xs arbitrary: w)
  case Nil
  show ?case by simp
next
  case (Cons x xs)
  show ?case
    unfolding forEach.simps
    by (rule andThen_frame [where obs=obs]) (simp_all add: assms Cons)
qed

lemma removeListener_caught_frame:
  assumes "indep trace_update obs"
  shows "obs (snd (removeListener_caught tg r w)) = obs w"
proof (cases "removeListener_fault tg")
  case None
  then show ?thesis
    using assms by (simp add: removeListener_caught_def Let_def record_effect_frame)
next
  case (Some e)
  have "obs (snd (andThen (read_prop e ''message'', w1)
                    (\<lambda>w2. (Normal, log Warn ''Error removing event listener'' w2)))) = obs w1" for w1
    by (rule andThen_frame [where obs=obs]) (simp_all add: assms log_frame)
  with Some show ?thesis
    using assms by (simp add: removeListener_caught_def Let_def record_effect_frame)
qed

lemma removeListeners_frame:
  assumes "indep trace_update obs"
  shows "obs (snd (forEach (\<lambda>(tg, regs). forEach (removeListener_caught tg) regs) xs w)) = obs w"
proof (rule forEach_frame)
  fix x :: "emitter_target \<times> listener_reg list" and w
  have "obs (snd (forEach (removeListener_caught tg) regs w)) = obs w" for tg regs
    by (rule forEach_frame) (rule removeListener_caught_frame [OF assms])
  then show "obs (snd ((case x of (tg, regs) \<Rightarrow> forEach (removeListener_caught tg) regs) w)) = obs w"
    by (simp split: prod.splits)
qed

lemma callback_catch_frame:
  assumes "indep trace_update obs" "indep shutdownErrors_update obs"
  shows "obs (snd (callback_catch msg e w)) = obs w"
  unfolding callback_catch_def
  by (rule andThen_frame [where obs=obs]) (simp_all add: assms log_frame indepD)

lemma call_wrapped_frame:
  assumes "indep trace_update obs" "indep shutdownErrors_update obs"
  shows "obs (snd (call_wrapped msg cb w)) = obs w"
proof -
  let ?w1 = "record_effect (CallbackInvoked (cb_id cb)) w"
  have a: "obs ?w1 = obs w"
    using assms by (simp add: record_effect_frame)
  show ?thesis
  proof (cases "cb_result cb")
    case Fulfils
    with a show ?thesis by (simp add: call_wrapped_def Let_def)
  next
    case (Rejects e)
    with a show ?thesis by (simp add: call_wrapped_def Let_def)
  next
    case (Throws e)
    have "obs (snd (callback_catch msg e ?w1)) = obs w"
      using assms a by (simp add: callback_catch_frame)
    with Throws show ?thesis
      by (cases "callback_catch msg e ?w1")
         (auto simp: call_wrapped_def Let_def split: outcome.splits)
  qed
qed

lemma call_all_frame:
  assumes "indep trace_update obs" "indep shutdownErrors_update obs"
  shows "obs (snd (call_all msg cbs w)) = obs w"
proof (induction cbs arbitrary: w)
  case Nil
  show ?case by simp
next
  case (Cons cb cbs)
  obtain x w1 where a: "call_wrapped msg cb w = (x, w1)" by (cases "call_wrapped msg cb w")
  obtain xs w2 where b: "call_all msg cbs w1 = (xs, w2)" by (cases "call_all msg cbs w1")
  from call_wrapped_frame [OF assms, of msg cb w] a have "obs w1 = obs w" by simp
  moreover from Cons [of w1] b have "obs w2 = obs w1" by simp
  ultimately show ?case by (simp add: a b)
qed

lemma resume_wrapped_frame:
  assumes "indep trace_update obs" "indep shutdownErrors_update obs"
  shows "obs (snd (resume_wrapped msg x w)) = obs w"
proof (cases x)
  case (Awaiting v)
  show ?thesis
  proof (cases v)
    case None
    with Awaiting show ?thesis by simp
  next
    case (Some e)
    from callback_catch_frame [OF assms, of msg e w] Awaiting Some show ?thesis
      by (cases "callback_catch msg e w") (auto split: outcome.splits)
  qed
qed simp_all

lemma resume_all_frame:
  assumes "indep trace_update obs" "indep shutdownErrors_update obs"
  shows "obs (snd (resume_all msg xs w)) = obs w"
proof (induction xs arbitrary: w)
  case Nil
  show ?case by simp
next
  case (Cons x xs)
  obtain y w1 where a: "resume_wrapped msg x w = (y, w1)" by (cases "resume_wrapped msg x w")
  obtain ys w2 where b: "resume_all msg xs w1 = (ys, w2)" by (cases "resume_all msg xs w1")
  from resume_wrapped_frame [OF assms, of msg x w] a have "obs w1 = obs w" by simp
  moreover from Cons [of w1] b have "obs w2 = obs w1" by simp
  ultimately show ?case by (simp add: a b)
qed

lemma cleanup_catch_frame:
  assumes "indep trace_update obs" "indep shutdownErrors_update obs"
  shows "obs (snd (cleanup_catch e w)) = obs w"
  using assms by (simp add: cleanup_catch_def log_frame indepD split: outcome.splits)

lemma performResourceCleanup_begin_frame:
  assumes "indep trace_update obs" "indep pendingTimers_update obs" "indep timers_update obs"
    "indep intervals_update obs" "indep eventListeners_update obs"
    "indep signalHandlers_update obs" "indep shutdownErrors_update obs"
  shows "obs (snd (performResourceCleanup_begin w)) = obs w"
proof -
  let ?w1 = "log Info ''Starting resource cleanup'' w"
  let ?w2 = "(fold clearTimeout (timers ?w1) ?w1)\<lparr>timers := []\<rparr>"
  let ?w3 = "(fold clearInterval (intervals ?w2) ?w2)\<lparr>intervals := []\<rparr>"
  let ?r = "forEach (\<lambda>(tg, regs). forEach (removeListener_caught tg) regs) (eventListeners ?w3) ?w3"
  have a: "\<And>xs w. obs (fold clearTimeout xs w) = obs w"
    using assms by (intro fold_frame clearTimeout_frame)
  have b: "\<And>xs w. obs (fold clearInterval xs w) = obs w"
    using assms by (intro fold_frame clearInterval_frame)
  have e: "\<And>xs w. obs (fold remove_signal_handler xs w) = obs w"
    using assms by (intro fold_frame) (simp add: remove_signal_handler_def record_effect_frame)
  have w3: "obs ?w3 = obs w"
    using assms by (simp add: a b indepD log_frame)
  have r: "obs (snd ?r) = obs w"
    using assms w3 by (simp add: removeListeners_frame)
  obtain out w4 where rr: "?r = (out, w4)" by (cases ?r)
  with r have w4: "obs w4 = obs w" by simp
  show ?thesis
  proof (cases out)
    case (Raise x)
    have "obs (snd (cleanup_catch x w4)) = obs w"
      using assms w4 by (simp add: cleanup_catch_frame)
    with rr Raise show ?thesis
      by (cases "cleanup_catch x w4") (simp add: performResourceCleanup_begin_def Let_def)
  next
    case Normal
    let ?w5 = "w4\<lparr>eventListeners := []\<rparr>"
    let ?w6 = "(fold remove_signal_handler (signalHandlers ?w5) ?w5)\<lparr>signalHandlers := []\<rparr>"
    have "obs ?w6 = obs w"
      using assms w4 by (simp add: e indepD)
    then have "obs (snd (call_all ''Error in resource cleanup callback''
        (resourceCleanupCallbacks ?w6) ?w6)) = obs w"
      using assms by (simp add: call_all_frame)
    with rr Normal show ?thesis
      by (cases "call_all ''Error in resource cleanup callback'' (resourceCleanupCallbacks ?w6) ?w6")
         (simp add: performResourceCleanup_begin_def Let_def)
  qed
qed

lemma performResourceCleanup_resume_frame:
  assumes "indep trace_update obs" "indep shutdownErrors_update obs"
  shows "obs (snd (performResourceCleanup_resume rej w)) = obs w"
proof (cases rej)
  case (Some x)
  with cleanup_catch_frame [OF assms, of x w] show ?thesis
    by (cases "cleanup_catch x w") (simp add: performResourceCleanup_resume_def)
next
  case None
  let ?r = "emit CleanupCompleted PNone (log Info ''Resource cleanup completed'' w)"
  have r: "obs (snd ?r) = obs w"
    using assms by (simp add: emit_quiet_frame log_frame)
  obtain out w1 where rr: "?r = (out, w1)" by (cases ?r)
  with r have w1: "obs w1 = obs w" by simp
  show ?thesis
  proof (cases out)
    case Normal
    with None rr w1 show ?thesis by (simp add: performResourceCleanup_resume_def)
  next
    case (Raise e)
    with cleanup_catch_frame [OF assms, of e w1] None rr w1 show ?thesis
      by (cases "cleanup_catch e w1") (simp add: performResourceCleanup_resume_def)
  qed
qed

lemma start_cleanup_frame:
  assumes "indep trace_update obs" "indep pendingTimers_update obs" "indep timers_update obs"
    "indep intervals_update obs" "indep eventListeners_update obs"
    "indep signalHandlers_update obs" "indep shutdownErrors_update obs" "indep jobs_update obs"
  shows "obs (start_cleanup c w) = obs w"
  using performResourceCleanup_begin_frame [OF assms(1-7), of w] assms(8)
  by (cases "performResourceCleanup_begin w"; cases "fst (performResourceCleanup_begin w)")
     (simp_all add: start_cleanup_def enqueue_frame)

lemma executeShutdownCallbacks_begin_frame:
  assumes "indep trace_update obs" "indep shutdownErrors_update obs"
  shows "obs (snd (executeShutdownCallbacks_begin w)) = obs w"
proof (cases "length (shutdownCallbacks w) = 0")
  case True
  then show ?thesis by (simp add: executeShutdownCallbacks_begin_def)
next
  case False
  let ?r = "call_all ''Error in shutdown callback'' (shutdownCallbacks w)
              (log Info ''Executing shutdown callbacks'' w)"
  have "obs (snd ?r) = obs w"
    using assms by (simp add: call_all_frame log_frame)
  with False show ?thesis
    by (cases ?r) (simp add: executeShutdownCallbacks_begin_def)
qed

lemma executeShutdownCallbacks_resume_frame:
  assumes "indep trace_update obs"
  shows "obs (snd (executeShutdownCallbacks_resume n w)) = obs w"
  using assms by (simp add: executeShutdownCallbacks_resume_def emit_quiet_frame log_frame)

lemma destroy_caught_frame:
  assumes "indep trace_update obs" "indep shutdownErrors_update obs"
  shows "obs (snd (destroy_caught i w)) = obs w"
proof (cases "destroy_fault (socket i)")
  case None
  then show ?thesis
    using assms by (simp add: destroy_caught_def destroy_def log_frame record_effect_frame)
next
  case (Some e)
  let ?w1 = "record_effect (SocketDestroy (sock_id (socket i))) w"
  have "obs (snd (andThen (read_prop e ''message'', ?w1)
            (\<lambda>w2. (Normal, (log Warn ''Error force closing connection'' w2)
                             \<lparr>shutdownErrors := shutdownErrors w2 @ [e]\<rparr>)))) = obs ?w1"
    by (rule andThen_frame [where obs=obs]) (simp_all add: assms log_frame indepD)
  with Some show ?thesis
    using assms by (simp add: destroy_caught_def destroy_def record_effect_frame)
qed

lemma forceCloseConnections_frame:
  assumes "indep trace_update obs" "indep shutdownErrors_update obs" "indep activeConnections_update obs"
  shows "obs (snd (forceCloseConnections w)) = obs w"
proof -
  have f: "obs (snd (forEach destroy_caught xs w')) = obs w'" for xs w'
    by (rule forEach_frame) (rule destroy_caught_frame [OF assms(1,2)])
  show ?thesis
    unfolding forceCloseConnections_def Let_def
    by (rule andThen_frame [where obs=obs])
       (use assms in \<open>simp_all add: f log_frame emit_quiet_frame indepD\<close>)
qed

lemma forceShutdown_frame:
  assumes "indep trace_update obs" "indep shutdownErrors_update obs" "indep activeConnections_update obs"
    "indep pendingTimers_update obs" "indep nextTimer_update obs"
  shows "obs (snd (forceShutdown c w)) = obs w"
proof -
  have a: "\<And>xs w. obs (fold clearTimeout xs w) = obs w"
    using assms by (intro fold_frame clearTimeout_frame)
  have b: "\<And>xs w. obs (fold clearInterval xs w) = obs w"
    using assms by (intro fold_frame clearInterval_frame)
  have c: "obs (snd (forceCloseConnections (log Warn ''Forcing immediate shutdown'' w))) = obs w"
    using assms by (simp add: forceCloseConnections_frame log_frame)
  show ?thesis
    unfolding forceShutdown_def
    by (rule andThen_frame [where obs=obs, OF c], unfold Let_def, rule andThen_frame [where obs=obs])
       (use assms in \<open>simp_all add: emit_quiet_frame a b setTimeout_frame\<close>)
qed

lemma handleSignal_catch_frame:
  assumes "indep trace_update obs" "indep shutdownErrors_update obs" "indep activeConnections_update obs"
    "indep pendingTimers_update obs" "indep nextTimer_update obs"
  shows "obs (snd (handleSignal_catch e w)) = obs w"
  unfolding handleSignal_catch_def
  by (rule andThen_frame [where obs=obs])
     (use assms in \<open>simp_all add: forceShutdown_frame log_frame indepD\<close>)

lemma completeShutdown_frame:
  assumes "indep trace_update obs" "indep state_update obs" "indep exited_update obs"
  shows "obs (snd (completeShutdown sig err w)) = obs w"
proof (cases "select_exit_code err (shutdownErrors (w\<lparr>state := TERMINATION\<rparr>))")
  case (Inl x)
  then show ?thesis
    using assms by (simp add: completeShutdown_def Let_def indepD)
next
  case (Inr code)
  have "obs (snd (andThen (emit ShutdownCompleted (PSummary s)
                             (log Info ''Graceful shutdown completed'' (w\<lparr>state := TERMINATION\<rparr>)))
                    (\<lambda>w3. (Normal, process_exit code w3)))) = obs w" for s
    by (rule andThen_frame [where obs=obs])
       (use assms in \<open>simp_all add: emit_quiet_frame log_frame process_exit_frame indepD\<close>)
  with Inr show ?thesis
    by (simp add: completeShutdown_def Let_def)
qed

lemma caller_catch_frame:
  assumes "indep trace_update obs" "indep shutdownErrors_update obs" "indep activeConnections_update obs"
    "indep pendingTimers_update obs" "indep nextTimer_update obs"
  shows "obs (snd (caller_catch c e w)) = obs w"
proof (cases c)
  case (MainSeq sig err)
  then show ?thesis using assms by (simp add: handleSignal_catch_frame)
next
  case CleanupChain
  have "obs (snd (andThen (read_prop e ''message'', w)
       (\<lambda>w1. forceShutdown EXIT_RESOURCE_CLEANUP_FAILED (log Error ''Error during cleanup phase'' w1)))) = obs w"
    by (rule andThen_frame [where obs=obs])
       (use assms in \<open>simp_all add: forceShutdown_frame log_frame\<close>)
  with CleanupChain show ?thesis by simp
qed

lemma caller_complete_frame:
  assumes "indep trace_update obs" "indep state_update obs" "indep exited_update obs"
  shows "obs (snd (caller_complete c w)) = obs w"
  using assms by (cases c) (simp_all add: completeShutdown_frame)

section \<open>Draining the job queue\<close>

lemma potential_indep:
  "indep trace_update potential" "indep pendingTimers_update potential"
  "indep timers_update potential" "indep intervals_update potential"
  "indep eventListeners_update potential" "indep signalHandlers_update potential"
  "indep shutdownErrors_update potential" "indep activeConnections_update potential"
  "indep nextTimer_update potential" "indep state_update potential"
  "indep exited_update potential" "indep drainWaiter_update potential"
  "indep closeWaiter_update potential" "indep closeCallbackArmed_update potential"
  "indep listeners_update potential" "indep shutdownStartTime_update potential"
  by (simp_all add: indep_def potential_def)

lemma potential_enqueue: "potential (enqueue j w) = potential w + job_rank j"
  by (simp add: potential_def enqueue_def)

lemma potential_reject: "potential (reject e w) = Suc (potential w)"
  by (simp add: potential_def reject_def)

lemma potential_checkConnections: "potential (checkConnections t w) \<le> potential w + 31"
proof -
  have "potential (resolveDrain t w') \<le> potential w' + 31" for w'
    by (simp add: resolveDrain_def potential_enqueue indepD [OF potential_indep(12)]
        split: option.splits)
  moreover have "potential (log l m (clearTimeout t w\<lparr>timers := ts\<rparr>)) = potential w" for l m ts
    by (simp add: log_frame clearTimeout_frame potential_indep indepD [OF potential_indep(3)])
  ultimately show ?thesis
    by (simp add: checkConnections_def Let_def del: One_nat_def) (metis)
qed

lemma potential_drainConnections:
  "potential (snd (drainConnections sig err w)) \<le>
     potential w + (if fst (drainConnections sig err w) = DrainPending then 31 else 0)"
proof (cases "length (activeConnections w) = 0")
  case True
  then show ?thesis by (simp add: drainConnections_def log_frame potential_indep)
next
  case False
  let ?w1 = "(log Info ''Starting connection draining'' w)\<lparr>state := DRAINING\<rparr>"
  let ?r = "emit DrainingStarted (PCount (length (activeConnections ?w1))) ?w1"
  have p: "potential (snd ?r) = potential w"
    by (simp add: emit_quiet_frame potential_indep log_frame indepD [OF potential_indep(10)])
  show ?thesis
  proof (cases ?r)
    case (Pair out w2)
    with p have p2: "potential w2 = potential w" by simp
    show ?thesis
    proof (cases out)
      case (Raise e)
      with Pair False p2 show ?thesis by (simp add: drainConnections_def)
    next
      case Normal
      let ?w4 = "(snd (setTimeout (gracePeriodMs (config w2)) GraceTimeout w2))
         \<lparr>timers := set_add (nextTimer w2) (timers w2), drainWaiter := Some (nextTimer w2, sig, err)\<rparr>"
      have "potential ?w4 = potential w"
        using p2 by (simp add: setTimeout_def potential_def)
      then have "potential (checkConnections (nextTimer w2) ?w4) \<le> potential w + 31"
        using potential_checkConnections [of "nextTimer w2" ?w4] by simp
      then show ?thesis
        using Pair False Normal
        by (simp add: drainConnections_def Let_def setTimeout_def potential_def)
    qed
  qed
qed

lemma potential_stopAcceptingConnections:
  "potential (snd (stopAcceptingConnections sig err w)) \<le>
     potential w + (if fst (stopAcceptingConnections sig err w) = Normal then 36 else 0)"
proof (cases "server w")
  case None
  then show ?thesis by (simp add: stopAcceptingConnections_def potential_enqueue)
next
  case (Some srv)
  let ?w2 = "record_effect (ServerClose (srv_id srv))
               (log Info ''Stopping server from accepting new connections'' w)"
  have a: "potential ?w2 = potential w"
    by (simp add: record_effect_frame log_frame potential_indep)
  have b: "potential (snd (andThen (emit ServerClosed PNone (?w2\<lparr>closeCallbackArmed := True\<rparr>))
               (\<lambda>w3. (Normal, w3\<lparr>closeWaiter := Some (sig, err)\<rparr>)))) = potential w"
    by (rule andThen_frame [where obs=potential])
       (simp_all add: emit_quiet_frame potential_indep a indepD [OF potential_indep(13)]
          indepD [OF potential_indep(14)])
  show ?thesis
    using Some a b by (simp add: stopAcceptingConnections_def Let_def split: option.splits)
qed

lemma potential_executeShutdownSequence:
  "potential (executeShutdownSequence sig err w) \<le> potential w + 36"
  using potential_stopAcceptingConnections [of sig err w]
  by (cases "stopAcceptingConnections sig err w")
     (auto simp: executeShutdownSequence_def potential_enqueue split: outcome.splits)

text \<open>A rejection of the promise of \<open>handleSignal\<close> is counted with the call.\<close>

lemma potential_handleSignal:
  "potential (snd (handleSignal sig err w)) + (if fst (handleSignal sig err w) = Normal then 0 else 1)
     \<le> potential w"
proof (cases "shutdownInitiated w")
  case True
  then show ?thesis by (simp add: handleSignal_def log_frame potential_indep)
next
  case False
  let ?w2 = "(log Info (''Received '' @ sig @ '' signal, initiating graceful shutdown'') w)
      \<lparr>shutdownInitiated := True, shutdownStartTime := Some (now w), state := SHUTDOWN_PENDING\<rparr>"
  have now: "now (log l m w) = now w" for l m
    by (simp add: log_def record_effect_def)
  have a: "potential ?w2 + 40 = potential w"
    using False by (simp add: potential_def log_def record_effect_def)
  let ?r = "emit ShutdownInitiated (PTrigger sig err) ?w2"
  have b: "potential (snd ?r) = potential ?w2"
    by (rule emit_quiet_frame) (simp_all add: potential_indep)
  obtain out w3 where r: "?r = (out, w3)" by (cases ?r)
  with a b have c: "potential w3 + 40 = potential w" by simp
  show ?thesis
  proof (cases out)
    case Normal
    with r False c potential_executeShutdownSequence [of sig err w3] show ?thesis
      by (simp add: handleSignal_def Let_def now)
  next
    case (Raise e)
    have "potential (snd (handleSignal_catch e w3)) = potential w3"
      by (simp add: handleSignal_catch_frame potential_indep)
    with r False c Raise show ?thesis
      by (simp add: handleSignal_def Let_def now)
  qed
qed

lemma potential_handler:
  "potential (case handleSignal sig err w of (Normal, w2) \<Rightarrow> w2 | (Raise e, w2) \<Rightarrow> reject e w2)
     \<le> potential w"
  using potential_handleSignal [of sig err w]
  by (cases "handleSignal sig err w"; cases "fst (handleSignal sig err w)")
     (auto simp: potential_reject)

lemma potential_uncaughtException: "potential (uncaughtException e w) \<le> potential w"
proof -
  let ?w1 = "record_effect (UncaughtException e) w"
  have a: "potential (log l m ?w1) = potential w" for l m
    by (simp add: log_frame record_effect_frame potential_indep)
  have b: "potential (process_exit c ?w1) = potential w" for c
    by (simp add: process_exit_frame record_effect_frame potential_indep)
  show ?thesis
    using a b
      potential_handler [of "''UNCAUGHT_EXCEPTION''" "Some e"
        "log Error ''Uncaught exception, initiating emergency shutdown'' ?w1"]
    by (simp add: uncaughtException_def Let_def split: outcome.splits)
qed

lemma potential_unhandledRejection: "potential (unhandledRejection e w) \<le> potential w"
proof -
  let ?w1 = "record_effect (UnhandledRejection e) w"
  have a: "potential (log l m ?w1) = potential w" for l m
    by (simp add: log_frame record_effect_frame potential_indep)
  have b: "potential (process_exit c ?w1) = potential w" for c
    by (simp add: process_exit_frame record_effect_frame potential_indep)
  have c: "potential ?w1 = potential w"
    by (simp add: record_effect_frame potential_indep)
  show ?thesis
    using a b c potential_uncaughtException [of _ ?w1]
      potential_handler [of "''UNHANDLED_REJECTION''" "Some e"
        "log Error ''Unhandled promise rejection, initiating emergency shutdown'' ?w1"]
    by (simp add: unhandledRejection_def Let_def split: outcome.splits)
qed

lemma job_rank_on_rejected:
  "job_rank (on_rejected c e) < 10" "job_rank (on_rejected c e) < 22"
  "job_rank (on_rejected c e) \<le> 26"
  by (cases c; simp)+

lemma job_rank_after_callbacks:
  "job_rank (after_callbacks c b) < 10" "job_rank (after_callbacks c b) < 18"
  by (cases c; simp)+

lemma potential_start_cleanup: "potential (start_cleanup c w) \<le> potential w + 26"
proof -
  have p: "potential (snd (performResourceCleanup_begin w)) = potential w"
    by (simp add: performResourceCleanup_begin_frame potential_indep)
  show ?thesis
  proof (cases "performResourceCleanup_begin w")
    case (Pair res w1)
    with p have w1: "potential w1 = potential w" by simp
    show ?thesis
    proof (cases res)
      case (Inl x)
      with Pair w1 show ?thesis
        by (simp add: start_cleanup_def potential_enqueue job_rank_on_rejected)
    next
      case (Inr xs)
      with Pair w1 show ?thesis
        by (simp add: start_cleanup_def potential_enqueue)
    qed
  qed
qed

lemma potential_exec_job: "potential (exec_job j w) < potential w + job_rank j"
proof (cases j)
  case (AfterStopAccept sig err)
  then show ?thesis
    using potential_drainConnections [of sig err w]
    by (cases "drainConnections sig err w")
       (auto simp: potential_enqueue split: drain_result.splits)
next
  case (AfterDrain sig err)
  then show ?thesis
    using potential_start_cleanup [of "MainSeq sig err" w] by simp
next
  case (CleanupSettle c xs)
  have "potential (snd (resume_all ''Error in resource cleanup callback'' xs w)) = potential w"
    by (simp add: resume_all_frame potential_indep)
  with CleanupSettle show ?thesis
    by (cases "resume_all ''Error in resource cleanup callback'' xs w")
       (auto simp: potential_enqueue split: option.splits)
next
  case (CleanupResume c rej)
  have "potential (snd (performResourceCleanup_resume rej w)) = potential w"
    by (simp add: performResourceCleanup_resume_frame potential_indep)
  with CleanupResume show ?thesis
    by (cases "performResourceCleanup_resume rej w"; cases "fst (performResourceCleanup_resume rej w)")
       (auto simp: potential_enqueue job_rank_on_rejected)
next
  case (AfterCleanup c)
  have "potential (snd (executeShutdownCallbacks_begin w)) = potential w"
    by (simp add: executeShutdownCallbacks_begin_frame potential_indep)
  with AfterCleanup show ?thesis
    by (cases "executeShutdownCallbacks_begin w"; cases "fst (executeShutdownCallbacks_begin w)")
       (auto simp: potential_enqueue job_rank_after_callbacks)
next
  case (CallbacksSettle c xs)
  have "potential (snd (resume_all ''Error in shutdown callback'' xs w)) = potential w"
    by (simp add: resume_all_frame potential_indep)
  with CallbacksSettle show ?thesis
    by (cases "resume_all ''Error in shutdown callback'' xs w") (auto simp: potential_enqueue)
next
  case (CallbacksResume c n)
  have "potential (snd (executeShutdownCallbacks_resume n w)) = potential w"
    by (simp add: executeShutdownCallbacks_resume_frame potential_indep)
  with CallbacksResume show ?thesis
    by (cases "executeShutdownCallbacks_resume n w"; cases "fst (executeShutdownCallbacks_resume n w)")
       (auto simp: potential_enqueue job_rank_on_rejected job_rank_after_callbacks)
next
  case (AfterCallbacks c)
  have "potential (snd (caller_complete c w)) = potential w"
    by (simp add: caller_complete_frame potential_indep)
  with AfterCallbacks show ?thesis
    by (cases "caller_complete c w") (auto simp: potential_enqueue split: outcome.splits)
next
  case (Catch c e)
  have "potential (snd (caller_catch c e w)) = potential w"
    by (simp add: caller_catch_frame potential_indep)
  with Catch show ?thesis
    by (cases "caller_catch c e w") (auto simp: potential_reject split: outcome.splits)
next
  case (Hop j')
  then show ?thesis by (simp add: potential_enqueue)
qed

termination run_jobs
proof (relation "measure potential")
  show "wf (measure potential)" by simp
next
  fix w :: coordinator and j js
  assume "jobs w = j # js"
  then have "potential w = potential (w\<lparr>jobs := js\<rparr>) + job_rank j"
    by (simp add: potential_def)
  with potential_exec_job [of j "w\<lparr>jobs := js\<rparr>"]
  show "(exec_job j (w\<lparr>jobs := js\<rparr>), w) \<in> measure potential" by simp
next
  fix w :: coordinator and r rs
  assume "rejections w = r # rs"
  then have "potential w = Suc (potential (w\<lparr>rejections := rs\<rparr>))"
    by (simp add: potential_def)
  with potential_unhandledRejection [of r "w\<lparr>rejections := rs\<rparr>"]
  show "(unhandledRejection r (w\<lparr>rejections := rs\<rparr>), w) \<in> measure potential" by simp
qed

declare run_jobs.simps [simp del]

section \<open>Evaluation on concrete inputs\<close>

lemmas eval_defs =
  run_def step_def run_jobs.simps createShutdownCoordinator_def no_options_def
  merge_config_def DEFAULT_CONFIG_def log_def record_effect_def andThen_def setTimeout_def
  timer_delay_def type_error_def read_prop_def truthy_def
  clearTimeout_def clearInterval_def enqueue_def reject_def process_exit_def set_add_def destroy_def
  resolveDrain_def checkConnections_def emit_def setupConnectionTracking_def install_signal_def
  setupSignalHandlers_def registerServer_def removeListener_caught_def remove_signal_handler_def
  callback_catch_def call_wrapped_def cleanup_catch_def all_rejected_def
  performResourceCleanup_begin_def performResourceCleanup_resume_def
  performResourceCleanup_def start_cleanup_def
  executeShutdownCallbacks_begin_def executeShutdownCallbacks_resume_def
  generateConnectionId_def transitionToCleanup_def removeConnection_def handleConnectionTimeout_def
  onConnection_def onSocketError_def onSocketData_def destroy_caught_def forceCloseConnections_def
  forceShutdown_def shutdownDuration_def select_exit_code_def completeShutdown_def
  stopAcceptingConnections_def serverCloseCallback_def drainConnections_def graceTimeoutExpired_def
  handleSignal_catch_def executeShutdownSequence_def handleSignal_def shutdown_def
  unhandledRejection_def uncaughtException_def fireTimer_def host_callback_def
  async_call_def onShutdown_def onResourceCleanup_def trackTimer_def trackInterval_def
  trackEventListener_def EXIT_GRACEFUL_def EXIT_TIMEOUT_def EXIT_RESOURCE_CLEANUP_FAILED_def
  EXIT_SIGNAL_ERROR_def Let_def

section \<open>Server registration (C10)\<close>

lemma registerServer_sets_server:
  assumes "has_close srv" "server w = None"
  shows "server (snd (registerServer (Some srv) w)) = Some srv"
proof -
  have i: "indep trace_update server" "indep signalHandlers_update server"
    "indep faultHandlers_update server"
    by (simp_all add: indep_def)
  have a: "server (setupConnectionTracking srv w') = server w'" for w'
    by (simp add: setupConnectionTracking_def record_effect_frame i)
  have b: "server (install_signal sig w') = server w'" for sig w'
    by (simp add: install_signal_def log_frame record_effect_frame i indepD [OF i(2)])
  have c: "server (setupSignalHandlers w') = server w'" for w'
    by (simp add: setupSignalHandlers_def Let_def b record_effect_frame i)
  show ?thesis
    using assms by (simp add: registerServer_def Let_def emit_quiet_frame log_frame a c i)
qed

text \<open>
  C10. \<open>registerServer\<close> throws for an argument that is falsy or has no \<open>close\<close>
  function, and changes nothing then. After a registration (the server field was empty and
  the argument valid) every further call throws, whatever its argument, and leaves the
  coordinator exactly as it was: the registered server, the connection listener and the
  signal handlers included. A further call with a valid server throws the "already
  registered" error.
\<close>

theorem registerServer_validates_and_registers_once:
  "((arg = None \<or> (\<exists>s. arg = Some s \<and> \<not> has_close s)) \<longrightarrow>
      registerServer arg w = (Raise (JsError ''Error'' ''Invalid server instance provided''), w))
   \<and> (has_close srv \<and> server w = None \<longrightarrow>
        server (snd (registerServer (Some srv) w)) = Some srv
        \<and> (\<forall>arg'. \<exists>e. registerServer arg' (snd (registerServer (Some srv) w))
               = (Raise e, snd (registerServer (Some srv) w)))
        \<and> (\<forall>srv'. has_close srv' \<longrightarrow>
              registerServer (Some srv') (snd (registerServer (Some srv) w))
               = (Raise (JsError ''Error'' ''Server already registered with shutdown coordinator''),
                  snd (registerServer (Some srv) w))))"
proof (intro conjI impI allI)
  assume "arg = None \<or> (\<exists>s. arg = Some s \<and> \<not> has_close s)"
  then show "registerServer arg w = (Raise (JsError ''Error'' ''Invalid server instance provided''), w)"
    by (auto simp: registerServer_def)
next
  assume h: "has_close srv \<and> server w = None"
  then show s: "server (snd (registerServer (Some srv) w)) = Some srv"
    by (simp add: registerServer_sets_server)
  show "\<exists>e. registerServer arg' (snd (registerServer (Some srv) w))
               = (Raise e, snd (registerServer (Some srv) w))" for arg'
    using s by (cases arg') (simp_all add: registerServer_def)
  show "registerServer (Some srv') (snd (registerServer (Some srv) w))
          = (Raise (JsError ''Error'' ''Server already registered with shutdown coordinator''),
             snd (registerServer (Some srv) w))" if "has_close srv'" for srv'
    using s that by (simp add: registerServer_def)
qed

theorem registerServer_validates_and_registers_once_witness:
  "registerServer (Some closeless_server) (createShutdownCoordinator no_options)
     = (Raise (JsError ''Error'' ''Invalid server instance provided''),
        createShutdownCoordinator no_options)
   \<and> server (snd (registerServer (Some (sample_server 1)) (createShutdownCoordinator no_options)))
       = Some (sample_server 1)
   \<and> fst (registerServer (Some (sample_server 2))
            (snd (registerServer (Some (sample_server 1)) (createShutdownCoordinator no_options))))
       = Raise (JsError ''Error'' ''Server already registered with shutdown coordinator'')"
proof -
  have a: "Some closeless_server = None \<or> (\<exists>s. Some closeless_server = Some s \<and> \<not> has_close s)"
    by (simp add: closeless_server_def)
  have b: "has_close (sample_server 1) \<and> server (createShutdownCoordinator no_options) = None"
    by (simp add: sample_server_def createShutdownCoordinator_def log_def record_effect_def)
  have c: "has_close (sample_server 2)"
    by (simp add: sample_server_def)
  note t = registerServer_validates_and_registers_once
    [of "Some closeless_server" "createShutdownCoordinator no_options" "sample_server 1"]
  from t a have 1: "registerServer (Some closeless_server) (createShutdownCoordinator no_options)
     = (Raise (JsError ''Error'' ''Invalid server instance provided''),
        createShutdownCoordinator no_options)"
    by blast
  from t b have 2: "server (snd (registerServer (Some (sample_server 1))
      (createShutdownCoordinator no_options))) = Some (sample_server 1)"
    by blast
  from t b c have 3: "registerServer (Some (sample_server 2))
       (snd (registerServer (Some (sample_server 1)) (createShutdownCoordinator no_options)))
     = (Raise (JsError ''Error'' ''Server already registered with shutdown coordinator''),
        snd (registerServer (Some (sample_server 1)) (createShutdownCoordinator no_options)))"
    by blast
  from 1 2 3 show ?thesis by simp
qed

section \<open>Draining an empty registry (C5)\<close>

text \<open>
  C5. If no connection is tracked when the drain phase is entered, \<open>drainConnections\<close>
  returns at once: it writes one log line and nothing else. No grace timer is created or
  tracked, no promise is left waiting, no socket is destroyed, the state is not changed,
  and the continuation of the sequence (resource cleanup) is queued directly.
\<close>

theorem drainConnections_empty_returns_at_once:
  assumes "length (activeConnections w) = 0"
  shows "drainConnections sig err w
           = (DrainReturned, w\<lparr>trace := trace w @ [Log Info ''No active connections to drain'' (state w)]\<rparr>)
         \<and> exec_job (AfterStopAccept sig err) w
           = w\<lparr>trace := trace w @ [Log Info ''No active connections to drain'' (state w)],
                jobs := jobs w @ [AfterDrain sig err]\<rparr>
         \<and> pendingTimers (snd (drainConnections sig err w)) = pendingTimers w
         \<and> nextTimer (snd (drainConnections sig err w)) = nextTimer w
         \<and> timers (snd (drainConnections sig err w)) = timers w
         \<and> drainWaiter (snd (drainConnections sig err w)) = drainWaiter w
         \<and> state (snd (drainConnections sig err w)) = state w"
  using assms by (simp add: drainConnections_def log_def record_effect_def enqueue_def)

theorem drainConnections_empty_returns_at_once_witness:
  "length (activeConnections (createShutdownCoordinator no_options)) = 0
   \<and> fst (drainConnections ''SIGTERM'' None (createShutdownCoordinator no_options)) = DrainReturned
   \<and> pendingTimers (snd (drainConnections ''SIGTERM'' None (createShutdownCoordinator no_options))) = []
   \<and> jobs (exec_job (AfterStopAccept ''SIGTERM'' None) (createShutdownCoordinator no_options))
       = [AfterDrain ''SIGTERM'' None]"
proof -
  have h: "length (activeConnections (createShutdownCoordinator no_options)) = 0"
    by (simp add: eval_defs)
  have p: "pendingTimers (createShutdownCoordinator no_options) = []"
    "jobs (createShutdownCoordinator no_options) = []"
    by (simp_all add: eval_defs)
  note t = drainConnections_empty_returns_at_once [OF h, of "''SIGTERM''" None]
  note t1 = conjunct1 [OF t]
  note t2 = conjunct1 [OF conjunct2 [OF t]]
  note t3 = conjunct1 [OF conjunct2 [OF conjunct2 [OF t]]]
  have a: "fst (drainConnections ''SIGTERM'' None (createShutdownCoordinator no_options)) = DrainReturned"
    using arg_cong [OF t1, of fst] by simp
  have b: "pendingTimers (snd (drainConnections ''SIGTERM'' None (createShutdownCoordinator no_options))) = []"
    using t3 p(1) by simp
  have c: "jobs (exec_job (AfterStopAccept ''SIGTERM'' None) (createShutdownCoordinator no_options))
       = [AfterDrain ''SIGTERM'' None]"
    using arg_cong [OF t2, of jobs] p(2) by (simp del: exec_job.simps)
  from h a b c show ?thesis by blast
qed

section \<open>Removing a connection (C7)\<close>

lemma later_refl: "later w w"
  by (simp add: later_def)

lemma later_trans: "later a b \<Longrightarrow> later b c \<Longrightarrow> later a c"
  by (auto simp: later_def)

lemma later_same: "trace w' = trace w \<Longrightarrow> pendingTimers w' = pendingTimers w \<Longrightarrow> later w w'"
  by (simp add: later_def)

lemma later_record_effect: "later w (record_effect x w)"
  by (auto simp: later_def record_effect_def)

lemma later_log: "later w (log l m w)"
  by (simp add: log_def later_record_effect later_refl)

lemma later_clearTimeout: "later w (clearTimeout t w)"
  by (auto simp: later_def clearTimeout_def record_effect_def)

lemma later_clearInterval: "later w (clearInterval t w)"
  by (simp add: clearInterval_def later_record_effect)

lemma later_fold:
  assumes "\<And>x w. later w (f x w)"
  shows "later w (fold f xs w)"
proof (induction xs arbitrary: w)
  case Nil
  show ?case by (simp add: later_refl)
next
  case (Cons x xs)
  from assms [of w x] Cons [of "f x w"] show ?case
    by (auto intro: later_trans)
qed

lemma later_resolveDrain: "later w (resolveDrain t w)"
  by (rule later_same) (simp_all add: resolveDrain_frame indep_def)

lemma later_checkConnections: "later w (checkConnections t w)"
proof (cases "length (activeConnections w) = 0")
  case False
  then show ?thesis by (simp add: checkConnections_def later_refl)
next
  case True
  let ?w1 = "clearTimeout t w"
  let ?w2 = "?w1\<lparr>timers := removeAll t (timers ?w1)\<rparr>"
  let ?w3 = "log Info ''All connections drained naturally'' ?w2"
  have "later w ?w1" by (rule later_clearTimeout)
  moreover have "later ?w1 ?w2" by (rule later_same) simp_all
  moreover have "later ?w2 ?w3" by (rule later_log)
  moreover have "later ?w3 (resolveDrain t ?w3)" by (rule later_resolveDrain)
  ultimately have "later w (resolveDrain t ?w3)" by (blast intro: later_trans)
  with True show ?thesis by (simp add: checkConnections_def Let_def)
qed

lemma later_run_listeners: "later w (snd (run_listeners ls ev w))"
proof (induction ls ev w rule: run_listeners.induct)
  case (1 ev w)
  show ?case by (simp add: later_refl)
next
  case (2 ev' f ls ev w)
  then show ?case by (auto simp: later_refl split: option.splits)
next
  case (3 t ls ev w)
  then show ?case
    using later_checkConnections [of w t] by (auto intro: later_trans)
qed

lemma later_emit: "later w (snd (emit ev p w))"
  unfolding emit_def
  by (rule later_trans [OF later_record_effect later_run_listeners])

lemma later_andThen:
  assumes "later w (snd r)" "\<And>w'. later w' (snd (k w'))"
  shows "later w (snd (andThen r k))"
proof (cases r)
  case (Pair out w1)
  with assms(1) have a: "later w w1" by simp
  show ?thesis
  proof (cases out)
    case Normal
    with Pair a assms(2) [of w1] show ?thesis
      by (auto simp: andThen_def intro: later_trans)
  next
    case (Raise e)
    with Pair a show ?thesis by (simp add: andThen_def)
  qed
qed

lemma later_forEach:
  assumes "\<And>x w. later w (snd (f x w))"
  shows "later w (snd (forEach f xs w))"
proof (induction xs arbitrary: w)
  case Nil
  show ?case by (simp add: later_refl)
next
  case (Cons x xs)
  show ?case
    unfolding forEach.simps by (rule later_andThen) (simp_all add: assms Cons)
qed

lemma later_guarded:
  assumes "\<And>w'. later w' (snd (k w'))"
  shows "later w (snd (andThen (read_prop e p, w) k))"
  by (rule later_andThen) (simp_all add: later_refl assms)

lemma later_removeListener_caught: "later w (snd (removeListener_caught tg r w))"
proof -
  let ?w1 = "record_effect (RemoveListener (tgt_id tg) (reg_event r) (reg_handler r)) w"
  have a: "later w ?w1" by (rule later_record_effect)
  have "later ?w1 (snd (andThen (read_prop e ''message'', ?w1)
      (\<lambda>w2. (Normal, log Warn ''Error removing event listener'' w2))))" for e
    by (rule later_guarded) (simp add: later_log)
  with a have "later w (snd (andThen (read_prop e ''message'', ?w1)
      (\<lambda>w2. (Normal, log Warn ''Error removing event listener'' w2))))" for e
    by (blast intro: later_trans)
  with a show ?thesis
    by (simp add: removeListener_caught_def Let_def split: option.splits)
qed

lemma later_field:
  "later a (b\<lparr>timers := x\<rparr>)" "later a (b\<lparr>intervals := y\<rparr>)"
  "later a (b\<lparr>eventListeners := z\<rparr>)" "later a (b\<lparr>signalHandlers := u\<rparr>)"
  "later a (b\<lparr>shutdownErrors := v\<rparr>)" "later a (b\<lparr>jobs := js\<rparr>)"
  if "later a b"
  using that by (simp_all add: later_def)

lemma later_callback_catch: "later w (snd (callback_catch msg e w))"
  unfolding callback_catch_def
  by (rule later_guarded) (simp add: later_field later_log)

lemma later_call_wrapped: "later w (snd (call_wrapped msg cb w))"
proof -
  let ?w1 = "record_effect (CallbackInvoked (cb_id cb)) w"
  have a: "later w ?w1" by (rule later_record_effect)
  have b: "later w (snd (callback_catch msg e ?w1))" for e
    using a later_callback_catch by (blast intro: later_trans)
  show ?thesis
  proof (cases "cb_result cb")
    case (Throws e)
    obtain out w2 where c: "callback_catch msg e ?w1 = (out, w2)"
      by (cases "callback_catch msg e ?w1")
    from b [of e] c have "later w w2" by simp
    with Throws c show ?thesis
      by (cases out) (simp_all add: call_wrapped_def Let_def)
  qed (use a in \<open>simp_all add: call_wrapped_def Let_def\<close>)
qed

lemma later_call_all: "later w (snd (call_all msg cbs w))"
proof (induction cbs arbitrary: w)
  case Nil
  show ?case by (simp add: later_refl)
next
  case (Cons cb cbs)
  obtain x w1 where a: "call_wrapped msg cb w = (x, w1)" by (cases "call_wrapped msg cb w")
  obtain xs w2 where b: "call_all msg cbs w1 = (xs, w2)" by (cases "call_all msg cbs w1")
  from later_call_wrapped [of w msg cb] a have "later w w1" by simp
  moreover from Cons [of w1] b have "later w1 w2" by simp
  ultimately show ?case by (auto simp: a b intro: later_trans)
qed

lemma later_cleanup_catch: "later w (snd (cleanup_catch e w))"
  by (simp add: cleanup_catch_def later_refl later_field later_log split: outcome.splits)

lemma later_performResourceCleanup_begin: "later w (snd (performResourceCleanup_begin w))"
proof -
  let ?w1 = "log Info ''Starting resource cleanup'' w"
  let ?w2 = "(fold clearTimeout (timers ?w1) ?w1)\<lparr>timers := []\<rparr>"
  let ?w3 = "(fold clearInterval (intervals ?w2) ?w2)\<lparr>intervals := []\<rparr>"
  let ?r = "forEach (\<lambda>(tg, regs). forEach (removeListener_caught tg) regs) (eventListeners ?w3) ?w3"
  have 1: "later w ?w1" by (rule later_log)
  have 2: "later ?w1 ?w2" by (intro later_field later_fold later_clearTimeout)
  have 3: "later ?w2 ?w3" by (intro later_field later_fold later_clearInterval)
  have 4: "later ?w3 (snd ?r)"
    by (rule later_forEach) (auto intro: later_forEach later_removeListener_caught)
  obtain out w4 where rr: "?r = (out, w4)" by (cases ?r)
  with 1 2 3 4 have w4: "later w w4" by (auto intro: later_trans)
  show ?thesis
  proof (cases out)
    case (Raise x)
    have "later w (snd (cleanup_catch x w4))"
      using w4 later_cleanup_catch by (blast intro: later_trans)
    with rr Raise show ?thesis
      by (cases "cleanup_catch x w4") (simp add: performResourceCleanup_begin_def Let_def)
  next
    case Normal
    let ?w5 = "w4\<lparr>eventListeners := []\<rparr>"
    let ?w6 = "(fold remove_signal_handler (signalHandlers ?w5) ?w5)\<lparr>signalHandlers := []\<rparr>"
    have 5: "later w ?w5" using w4 by (rule later_field)
    have 6: "later ?w5 ?w6"
      by (intro later_field later_fold) (simp add: remove_signal_handler_def later_record_effect)
    have "later w (snd (call_all ''Error in resource cleanup callback''
        (resourceCleanupCallbacks ?w6) ?w6))"
      using 5 6 later_call_all by (blast intro: later_trans)
    with rr Normal show ?thesis
      by (cases "call_all ''Error in resource cleanup callback'' (resourceCleanupCallbacks ?w6) ?w6")
         (simp add: performResourceCleanup_begin_def Let_def)
  qed
qed

lemma later_start_cleanup: "later w (start_cleanup c w)"
proof (cases "performResourceCleanup_begin w")
  case (Pair res w1)
  with later_performResourceCleanup_begin [of w] have "later w w1" by simp
  then have "later w (enqueue j w1)" for j
    by (simp add: later_def enqueue_def)
  with Pair show ?thesis
    by (cases res) (simp_all add: start_cleanup_def)
qed

lemma later_transitionToCleanup: "later w (snd (transitionToCleanup w))"
  unfolding transitionToCleanup_def
proof (rule later_andThen)
  have "later w (w\<lparr>state := CLEANUP\<rparr>)" by (simp add: later_def)
  then show "later w (snd (emit CleanupStarted PNone
      (log Info ''Transitioning to cleanup phase'' (w\<lparr>state := CLEANUP\<rparr>))))"
    by (blast intro: later_trans later_log later_emit)
next
  fix w'
  show "later w' (snd (Normal, start_cleanup CleanupChain w'))"
    by (simp add: later_start_cleanup)
qed

lemma transitionToCleanup_frame:
  assumes "indep trace_update obs" "indep pendingTimers_update obs" "indep timers_update obs"
    "indep intervals_update obs" "indep eventListeners_update obs"
    "indep signalHandlers_update obs" "indep shutdownErrors_update obs"
    "indep state_update obs" "indep jobs_update obs"
  shows "obs (snd (transitionToCleanup w)) = obs w"
  unfolding transitionToCleanup_def
  by (rule andThen_frame [where obs=obs])
     (use assms in \<open>simp_all add: emit_quiet_frame log_frame start_cleanup_frame indepD\<close>)

lemma removeConnection_tracked:
  assumes "map_of (activeConnections w) c = Some info"
  shows "removeConnection c w =
     andThen (emit ConnectionRemoved (PConn c) (removeConnection_delete c info w)) removeConnection_check"
proof -
  have "removeConnection_check =
      (\<lambda>w5. if state w5 = DRAINING \<and> length (activeConnections w5) = 0
            then transitionToCleanup (log Info ''All connections drained successfully'' w5)
            else (Normal, w5))"
    by (rule ext) (simp add: removeConnection_check_def)
  with assms show ?thesis
    by (simp add: removeConnection_def removeConnection_delete_def Let_def)
qed

lemma removeConnection_check_frame:
  assumes "indep trace_update obs" "indep pendingTimers_update obs" "indep timers_update obs"
    "indep intervals_update obs" "indep eventListeners_update obs"
    "indep signalHandlers_update obs" "indep shutdownErrors_update obs"
    "indep state_update obs" "indep jobs_update obs"
  shows "obs (snd (removeConnection_check w)) = obs w"
  using assms by (simp add: removeConnection_check_def transitionToCleanup_frame log_frame)

lemma removeConnection_delete_registry:
  "activeConnections (removeConnection_delete c info w) = AList.delete c (activeConnections w)"
proof -
  have i: "indep trace_update activeConnections" "indep pendingTimers_update activeConnections"
    by (simp_all add: indep_def)
  have "activeConnections (case timeout info of Some t \<Rightarrow> clearTimeout t w | None \<Rightarrow> w)
      = activeConnections w"
    by (simp add: clearTimeout_frame i split: option.splits)
  then show ?thesis
    by (simp add: removeConnection_delete_def Let_def log_frame i)
qed

lemma removeConnection_registry:
  "activeConnections (snd (removeConnection c w)) = AList.delete c (activeConnections w)"
proof (cases "map_of (activeConnections w) c")
  case None
  then have "c \<notin> fst ` set (activeConnections w)"
    by (simp add: map_of_eq_None_iff)
  with None show ?thesis by (simp add: removeConnection_def)
next
  case (Some info)
  have i: "indep trace_update activeConnections" "indep pendingTimers_update activeConnections"
    "indep timers_update activeConnections" "indep jobs_update activeConnections"
    "indep drainWaiter_update activeConnections" "indep intervals_update activeConnections"
    "indep eventListeners_update activeConnections" "indep signalHandlers_update activeConnections"
    "indep shutdownErrors_update activeConnections" "indep state_update activeConnections"
    by (simp_all add: indep_def)
  show ?thesis
    unfolding removeConnection_tracked [OF Some]
    by (rule andThen_frame [where obs=activeConnections])
       (simp_all add: emit_frame removeConnection_check_frame removeConnection_delete_registry i)
qed

lemma later_removeConnection_check: "later w (snd (removeConnection_check w))"
  using later_trans [OF later_log later_transitionToCleanup]
  by (simp add: removeConnection_check_def later_refl)

text \<open>
  C7. For a tracked connection id, \<open>removeConnection\<close> cancels the idle timeout (the
  timer is cleared and no longer pending), deletes the record and emits
  \<open>connection-removed\<close>. Calling it again right away returns without any effect: the
  coordinator after the second call is the coordinator after the first, so the registry,
  the timers and the emitted notifications are the same.
\<close>

theorem removeConnection_twice_is_once:
  assumes "map_of (activeConnections w) c = Some info"
  shows "map_of (activeConnections (snd (removeConnection c w))) c = None
     \<and> removeConnection c (snd (removeConnection c w)) = (Normal, snd (removeConnection c w))
     \<and> Emit ConnectionRemoved (PConn c) \<in> set (trace (snd (removeConnection c w)))
     \<and> (\<forall>t. timeout info = Some t \<longrightarrow>
           ClearTimeout t \<in> set (trace (snd (removeConnection c w)))
           \<and> t \<notin> fst ` set (pendingTimers (snd (removeConnection c w))))"
proof -
  let ?r = "snd (removeConnection c w)"
  have gone: "map_of (activeConnections ?r) c = None"
    by (simp add: removeConnection_registry delete_conv')
  then have again: "removeConnection c ?r = (Normal, ?r)"
    by (simp add: removeConnection_def)
  let ?w1 = "(case timeout info of Some t \<Rightarrow> clearTimeout t w | None \<Rightarrow> w)"
  let ?w4 = "removeConnection_delete c info w"
  let ?e = "record_effect (Emit ConnectionRemoved (PConn c)) ?w4"
  have r: "?r = snd (andThen (emit ConnectionRemoved (PConn c) ?w4) removeConnection_check)"
    by (simp add: removeConnection_tracked [OF assms])
  have "later ?e (snd (emit ConnectionRemoved (PConn c) ?w4))"
    by (simp add: emit_def later_run_listeners)
  then have e: "later ?e ?r"
    unfolding r by (rule later_andThen) (rule later_removeConnection_check)
  have "Emit ConnectionRemoved (PConn c) \<in> set (trace ?e)"
    by (simp add: record_effect_def)
  with e have emitted: "Emit ConnectionRemoved (PConn c) \<in> set (trace ?r)"
    by (auto simp: later_def)
  have "later ?w1 ?w4"
    by (auto simp: removeConnection_delete_def Let_def later_def log_def record_effect_def)
  moreover have "later ?w4 ?e" by (rule later_record_effect)
  ultimately have w1: "later ?w1 ?r"
    using e by (blast intro: later_trans)
  have cancelled: "ClearTimeout t \<in> set (trace ?r) \<and> t \<notin> fst ` set (pendingTimers ?r)"
    if "timeout info = Some t" for t
  proof -
    from that have "ClearTimeout t \<in> set (trace ?w1)" "t \<notin> fst ` set (pendingTimers ?w1)"
      by (auto simp: clearTimeout_def record_effect_def)
    with w1 show ?thesis by (auto simp: later_def)
  qed
  from gone again emitted cancelled show ?thesis by blast
qed

lemma one_connection_registry:
  "activeConnections one_connection = [((2, 1), first_connection_info)]"
  by (simp add: one_connection_def first_connection_info_def sample_server_def sample_socket_def
      eval_defs)

theorem removeConnection_twice_is_once_witness:
  "map_of (activeConnections one_connection) (2, 1) = Some first_connection_info
   \<and> map_of (activeConnections (snd (removeConnection (2, 1) one_connection))) (2, 1) = None
   \<and> removeConnection (2, 1) (snd (removeConnection (2, 1) one_connection))
       = (Normal, snd (removeConnection (2, 1) one_connection))
   \<and> Emit ConnectionRemoved (PConn (2, 1)) \<in> set (trace (snd (removeConnection (2, 1) one_connection)))
   \<and> ClearTimeout 0 \<in> set (trace (snd (removeConnection (2, 1) one_connection)))
   \<and> 0 \<notin> fst ` set (pendingTimers (snd (removeConnection (2, 1) one_connection)))"
proof -
  have h: "map_of (activeConnections one_connection) (2, 1) = Some first_connection_info"
    by (simp add: one_connection_registry)
  have t: "timeout first_connection_info = Some 0"
    by (simp add: first_connection_info_def)
  from removeConnection_twice_is_once [OF h] t h show ?thesis
    by blast
qed

section \<open>Resource cleanup and faults that are null or undefined (C4)\<close>

text \<open>
  C4, evaluated on three trackers seeded through the interface with a timer, an interval,
  tracked listeners on three targets and two cleanup callbacks. The \<open>catch\<close> blocks of
  \<open>performResourceCleanup\<close> read \<open>error.message\<close>, which throws when the fault is
  \<open>null\<close> or \<open>undefined\<close>. In the first tracker the \<open>removeListener\<close> of the second
  target throws \<open>undefined\<close>: the operation is rejected with a \<open>TypeError\<close>, the third
  target is never reached, the registrations of all three targets stay tracked and no
  callback is called. In the second tracker the second callback rejects with
  \<open>undefined\<close>: the three sets are emptied, but the operation is rejected with a
  \<open>TypeError\<close>. So the fault is propagated, and in the first case a handle set is left
  non-empty. In the third tracker the same handle and callback fail with an error object:
  the operation is fulfilled and the sets are empty.
\<close>

theorem performResourceCleanup_propagates_nullish_faults:
  "(cleanup_report (performResourceCleanup (seeded_tracker (Some Nullish) Fulfils)),
    cleanup_report (performResourceCleanup (seeded_tracker None (Rejects Nullish))),
    cleanup_report (performResourceCleanup (seeded_tracker (Some boom) (Rejects boom))))
   = ((False, [], [], [1, 2, 3], [1, 2], [], [''TypeError'']),
      (False, [], [], [], [1, 2, 3], [1, 2], [''TypeError'']),
      (True, [], [], [], [1, 2, 3], [1, 2], [''Error'']))"
  by (simp add: seeded_tracker_def cleanup_report_def boom_def eval_defs)

section \<open>Faults of the shutdown sequence (C6)\<close>

text \<open>
  C6, evaluated on three runs in which a fault is raised after the trigger has passed the
  guard of \<open>handleSignal\<close>; a server, one connection and a timer (77) are tracked. When
  a listener of \<open>shutdown-initiated\<close> throws an error object, the \<open>catch\<close> block of
  \<open>handleSignal\<close> records it and calls \<open>forceShutdown\<close> with status 3: the socket is
  destroyed, the timer cleared, \<open>force-shutdown\<close> emitted and the process exits with
  status 3. When that listener throws \<open>undefined\<close>, the \<open>catch\<close> block itself throws
  on \<open>shutdownError.message\<close>: nothing is recorded, \<open>forceShutdown\<close> is not called,
  the server is not closed, the connection stays open, and the process stays in
  \<open>SHUTDOWN_PENDING\<close>. When a listener of \<open>connections-force-closed\<close> throws in the
  callback of the grace timer, the exception leaves the callback before the drain promise
  is resolved; the handler of uncaught exceptions calls \<open>handleSignal\<close>, which the guard
  turns away: nothing is recorded, \<open>forceShutdown\<close> is not called, the tracked timer is
  not cleared, and the sequence stays in \<open>DRAINING\<close> for good.
\<close>

theorem faults_that_miss_the_forced_shutdown:
  "(forced_path_report (run caught_fault_run (createShutdownCoordinator no_options)),
    forced_path_report (run nullish_fault_run (createShutdownCoordinator no_options)),
    forced_path_report
      (run grace_fault_run (createShutdownCoordinator (no_options\<lparr>opt_gracePeriodMs := Some 100\<rparr>))))
   = ((Some 3, [''Error''], [3], [77], [1], [], SHUTDOWN_PENDING),
      (None, [], [], [], [], [], SHUTDOWN_PENDING),
      (None, [], [], [], [1], [1], DRAINING))"
  by (simp add: caught_fault_run_def nullish_fault_run_def grace_fault_run_def
      forced_path_report_def boom_def sample_server_def sample_socket_def eval_defs)

section \<open>What every operation but the connection listener does to the registry\<close>

lemma core_indep:
  "indep trace_update core" "indep pendingTimers_update core" "indep timers_update core"
  "indep intervals_update core" "indep eventListeners_update core"
  "indep signalHandlers_update core" "indep shutdownErrors_update core"
  "indep nextTimer_update core" "indep exited_update core" "indep drainWaiter_update core"
  "indep closeWaiter_update core" "indep closeCallbackArmed_update core"
  "indep listeners_update core" "indep shutdownStartTime_update core" "indep jobs_update core"
  "indep shutdownInitiated_update core" "indep server_update core"
  "indep faultHandlers_update core" "indep maxConnectionsReached_update core"
  "indep shutdownCallbacks_update core" "indep resourceCleanupCallbacks_update core"
  "indep now_update core" "indep rejections_update core"
  by (simp_all add: indep_def core_def)

lemma core_state_indep:
  "indep trace_update core_state" "indep pendingTimers_update core_state"
  "indep timers_update core_state" "indep intervals_update core_state"
  "indep eventListeners_update core_state" "indep signalHandlers_update core_state"
  "indep shutdownErrors_update core_state" "indep nextTimer_update core_state"
  "indep exited_update core_state" "indep drainWaiter_update core_state"
  "indep jobs_update core_state" "indep activeConnections_update core_state"
  by (simp_all add: indep_def core_state_def)

lemma core_registry_indep:
  "indep trace_update core_registry" "indep pendingTimers_update core_registry"
  "indep timers_update core_registry" "indep intervals_update core_registry"
  "indep eventListeners_update core_registry" "indep signalHandlers_update core_registry"
  "indep shutdownErrors_update core_registry" "indep nextTimer_update core_registry"
  "indep exited_update core_registry" "indep drainWaiter_update core_registry"
  "indep jobs_update core_registry" "indep state_update core_registry"
  "indep shutdownInitiated_update core_registry" "indep shutdownStartTime_update core_registry"
  by (simp_all add: indep_def core_registry_def)

lemma shrinks_refl: "shrinks w w"
proof -
  have "map fst (activeConnections w) = filter (\<lambda>_. True) (map fst (activeConnections w))"
    by simp
  then show ?thesis unfolding shrinks_def by blast
qed

lemma shrinks_trans:
  assumes "shrinks a b" "shrinks b c"
  shows "shrinks a c"
proof -
  from assms obtain P Q where
    "map fst (activeConnections b) = filter P (map fst (activeConnections a))"
    "map fst (activeConnections c) = filter Q (map fst (activeConnections b))"
    unfolding shrinks_def by blast
  then have "map fst (activeConnections c) = filter (\<lambda>x. P x \<and> Q x) (map fst (activeConnections a))"
    by (simp add: conj_commute)
  then have "\<exists>R. map fst (activeConnections c) = filter R (map fst (activeConnections a))"
    by blast
  with assms show ?thesis
    unfolding shrinks_def by auto
qed

lemma shrinks_core: "core w' = core w \<Longrightarrow> shrinks w w'"
  using shrinks_refl [of w] by (simp add: core_def shrinks_def)

lemma shrinks_cleared:
  assumes "core_state w' = core_state w" "activeConnections w' = []"
  shows "shrinks w w'"
proof -
  have "map fst (activeConnections w') = filter (\<lambda>_. False) (map fst (activeConnections w))"
    using assms(2) by simp
  then have "\<exists>P. map fst (activeConnections w') = filter P (map fst (activeConnections w))"
    by blast
  with assms(1) show ?thesis by (simp add: core_state_def shrinks_def)
qed

lemma shrinks_state:
  assumes "core_registry w' = core_registry w" "state w' \<noteq> ACTIVE"
  shows "shrinks w w'"
  using assms shrinks_refl [of w] by (simp add: core_registry_def shrinks_def)

lemma shrinks_andThen:
  assumes "shrinks w (snd r)" "\<And>w'. shrinks w' (snd (k w'))"
  shows "shrinks w (snd (andThen r k))"
proof (cases r)
  case (Pair out w1)
  show ?thesis
  proof (cases out)
    case Normal
    with Pair assms(1) assms(2) [of w1] show ?thesis
      by (auto simp: andThen_def intro: shrinks_trans)
  next
    case (Raise e)
    with Pair assms(1) show ?thesis by (simp add: andThen_def)
  qed
qed

lemma shrinks_log: "shrinks w (log l m w)"
  by (rule shrinks_core) (simp add: log_frame core_indep)

lemma shrinks_emit: "shrinks w (snd (emit ev p w))"
  by (rule shrinks_core) (simp add: emit_frame core_indep)

lemma shrinks_enqueue: "shrinks w (enqueue j w)"
  by (rule shrinks_core) (simp add: enqueue_frame core_indep)

lemma shrinks_process_exit: "shrinks w (process_exit c w)"
  by (rule shrinks_core) (simp add: process_exit_frame core_indep)

lemma shrinks_resolveDrain: "shrinks w (resolveDrain t w)"
  by (rule shrinks_core) (simp add: resolveDrain_frame core_indep)

lemma shrinks_destroy: "shrinks w (snd (destroy s w))"
  by (rule shrinks_core) (simp add: destroy_frame core_indep)

lemma shrinks_reject: "shrinks w (reject e w)"
  by (rule shrinks_core) (simp add: reject_frame core_indep)

lemma shrinks_start_cleanup: "shrinks w (start_cleanup c w)"
  by (rule shrinks_core) (simp add: start_cleanup_frame core_indep)

lemma shrinks_resume_all: "shrinks w (snd (resume_all msg xs w))"
  by (rule shrinks_core) (simp add: resume_all_frame core_indep)

lemma shrinks_performResourceCleanup_resume: "shrinks w (snd (performResourceCleanup_resume rej w))"
  by (rule shrinks_core) (simp add: performResourceCleanup_resume_frame core_indep)

lemma shrinks_executeShutdownCallbacks_begin: "shrinks w (snd (executeShutdownCallbacks_begin w))"
  by (rule shrinks_core) (simp add: executeShutdownCallbacks_begin_frame core_indep)

lemma shrinks_executeShutdownCallbacks_resume: "shrinks w (snd (executeShutdownCallbacks_resume n w))"
  by (rule shrinks_core) (simp add: executeShutdownCallbacks_resume_frame core_indep)

lemma forceCloseConnections_registry:
  "activeConnections (snd (forceCloseConnections w)) = []
   \<or> activeConnections (snd (forceCloseConnections w)) = activeConnections w"
proof -
  let ?w1 = "log Info ''Force closing connections'' w"
  let ?r = "forEach destroy_caught (map snd (activeConnections w)) ?w1"
  have i: "indep trace_update activeConnections" "indep shutdownErrors_update activeConnections"
    by (simp_all add: indep_def)
  have "activeConnections (snd ?r) = activeConnections ?w1"
    by (rule forEach_frame) (simp add: destroy_caught_frame i)
  then have r: "activeConnections (snd ?r) = activeConnections w"
    by (simp add: log_frame i)
  obtain out w2 where rr: "?r = (out, w2)" by (cases ?r)
  show ?thesis
  proof (cases out)
    case (Raise e)
    with rr r show ?thesis
      by (simp add: forceCloseConnections_def Let_def andThen_def)
  next
    case Normal
    have "activeConnections (snd (emit ConnectionsForceClosed p (w2\<lparr>activeConnections := []\<rparr>))) = []" for p
      by (simp add: emit_quiet_frame i)
    with rr Normal show ?thesis
      by (simp add: forceCloseConnections_def Let_def andThen_def)
  qed
qed

lemma shrinks_forceCloseConnections: "shrinks w (snd (forceCloseConnections w))"
proof (cases "activeConnections (snd (forceCloseConnections w)) = []")
  case True
  have "core_state (snd (forceCloseConnections w)) = core_state w"
    by (simp add: forceCloseConnections_frame core_state_indep)
  then show ?thesis using True by (rule shrinks_cleared)
next
  case False
  with forceCloseConnections_registry [of w]
  have "activeConnections (snd (forceCloseConnections w)) = activeConnections w" by blast
  moreover have "core_state (snd (forceCloseConnections w)) = core_state w"
    by (simp add: forceCloseConnections_frame core_state_indep)
  ultimately have "core (snd (forceCloseConnections w)) = core w"
    by (simp add: core_def core_state_def)
  then show ?thesis by (rule shrinks_core)
qed

lemma shrinks_forceShutdown: "shrinks w (snd (forceShutdown c w))"
  unfolding forceShutdown_def
proof (rule shrinks_andThen)
  show "shrinks w (snd (forceCloseConnections (log Warn ''Forcing immediate shutdown'' w)))"
    by (rule shrinks_trans [OF shrinks_log shrinks_forceCloseConnections])
next
  fix w1
  have a: "core (fold clearTimeout xs w') = core w'" for xs w'
    by (intro fold_frame clearTimeout_frame) (simp_all add: core_indep)
  have b: "core (fold clearInterval xs w') = core w'" for xs w'
    by (intro fold_frame clearInterval_frame) (simp_all add: core_indep)
  have "core (snd (andThen (emit ForceShutdown (PExit c)
                     (fold clearInterval (intervals (fold clearTimeout (timers w1) w1))
                        (fold clearTimeout (timers w1) w1)))
                  (\<lambda>w4. (Normal, snd (setTimeout 100 (ForceExit c) w4))))) = core w1"
    by (rule andThen_frame [where obs=core])
       (simp_all add: emit_frame setTimeout_frame a b core_indep)
  then show "shrinks w1 (snd (let w2 = fold clearTimeout (timers w1) w1;
                                  w3 = fold clearInterval (intervals w2) w2
                              in andThen (emit ForceShutdown (PExit c) w3)
                                   (\<lambda>w4. (Normal, snd (setTimeout 100 (ForceExit c) w4)))))"
    by (simp add: Let_def shrinks_core)
qed

lemma shrinks_guarded:
  assumes "\<And>w'. shrinks w' (snd (k w'))"
  shows "shrinks w (snd (andThen (read_prop e p, w) k))"
  by (rule shrinks_andThen) (simp_all add: shrinks_refl assms)

lemma shrinks_handleSignal_catch: "shrinks w (snd (handleSignal_catch e w))"
  unfolding handleSignal_catch_def
proof (rule shrinks_guarded)
  fix w'
  have "core ((log Error ''Error during graceful shutdown'' w')\<lparr>shutdownErrors := x\<rparr>) = core w'" for x
    by (simp add: log_frame core_indep indepD [OF core_indep(7)])
  then have "shrinks w' ((log Error ''Error during graceful shutdown'' w')\<lparr>shutdownErrors := x\<rparr>)" for x
    by (rule shrinks_core)
  then show "shrinks w' (snd (forceShutdown EXIT_SIGNAL_ERROR
      ((log Error ''Error during graceful shutdown'' w')\<lparr>shutdownErrors := shutdownErrors w' @ [e]\<rparr>)))"
    using shrinks_forceShutdown by (blast intro: shrinks_trans)
qed

lemma shrinks_caller_catch: "shrinks w (snd (caller_catch c e w))"
proof (cases c)
  case (MainSeq sig err)
  then show ?thesis by (simp add: shrinks_handleSignal_catch)
next
  case CleanupChain
  have "shrinks w (snd (andThen (read_prop e ''message'', w)
       (\<lambda>w1. forceShutdown EXIT_RESOURCE_CLEANUP_FAILED (log Error ''Error during cleanup phase'' w1))))"
    by (rule shrinks_guarded) (rule shrinks_trans [OF shrinks_log shrinks_forceShutdown])
  with CleanupChain show ?thesis by simp
qed

lemma state_completeShutdown:
  "state (snd (completeShutdown sig err w)) = TERMINATION"
proof (cases "select_exit_code err (shutdownErrors (w\<lparr>state := TERMINATION\<rparr>))")
  case (Inl x)
  then show ?thesis by (simp add: completeShutdown_def Let_def)
next
  case (Inr code)
  have "state (snd (andThen (emit ShutdownCompleted (PSummary s)
                             (log Info ''Graceful shutdown completed'' (w\<lparr>state := TERMINATION\<rparr>)))
                    (\<lambda>w3. (Normal, process_exit code w3)))) = TERMINATION" for s
    by (rule andThen_frame [where obs=state])
       (simp_all add: emit_quiet_frame log_frame process_exit_frame indep_def)
  with Inr show ?thesis by (simp add: completeShutdown_def Let_def)
qed

lemma shrinks_completeShutdown: "shrinks w (snd (completeShutdown sig err w))"
  by (rule shrinks_state)
     (simp_all add: completeShutdown_frame core_registry_indep state_completeShutdown)

lemma state_transitionToCleanup: "state (snd (transitionToCleanup w)) = CLEANUP"
  unfolding transitionToCleanup_def
  by (rule andThen_frame [where obs=state])
     (simp_all add: emit_quiet_frame log_frame start_cleanup_frame indep_def)

lemma shrinks_transitionToCleanup: "shrinks w (snd (transitionToCleanup w))"
  by (rule shrinks_state)
     (simp_all add: transitionToCleanup_frame core_registry_indep state_transitionToCleanup)

lemma shrinks_checkConnections: "shrinks w (checkConnections t w)"
  by (rule shrinks_core) (simp add: checkConnections_frame core_indep)

lemma shrinks_drainConnections: "shrinks w (snd (drainConnections sig err w))"
proof (cases "length (activeConnections w) = 0")
  case True
  then show ?thesis by (simp add: drainConnections_def shrinks_log)
next
  case False
  let ?w1 = "(log Info ''Starting connection draining'' w)\<lparr>state := DRAINING\<rparr>"
  have "core_registry ?w1 = core_registry w"
    by (simp add: log_frame core_registry_indep indepD [OF core_registry_indep(12)])
  then have 1: "shrinks w ?w1" by (rule shrinks_state) simp
  let ?r = "emit DrainingStarted (PCount (length (activeConnections ?w1))) ?w1"
  have 2: "shrinks ?w1 (snd ?r)" by (rule shrinks_emit)
  obtain out w2 where r: "?r = (out, w2)" by (cases ?r)
  with 1 2 have w2: "shrinks w w2" by (auto intro: shrinks_trans)
  show ?thesis
  proof (cases out)
    case (Raise e)
    with r False w2 show ?thesis by (simp add: drainConnections_def)
  next
    case Normal
    let ?w4 = "(snd (setTimeout (gracePeriodMs (config w2)) GraceTimeout w2))
         \<lparr>timers := set_add (nextTimer w2) (timers w2), drainWaiter := Some (nextTimer w2, sig, err)\<rparr>"
    let ?w5 = "checkConnections (nextTimer w2) ?w4"
    let ?w6 = "?w5\<lparr>listeners := listeners ?w5 @ [CheckConnections (nextTimer w2)]\<rparr>"
    have "core ?w4 = core w2" by (simp add: setTimeout_def core_def)
    then have "shrinks w2 ?w4" by (rule shrinks_core)
    moreover have "shrinks ?w4 ?w5" by (rule shrinks_checkConnections)
    moreover have "shrinks ?w5 ?w6" by (rule shrinks_core) (simp add: core_def)
    ultimately have "shrinks w ?w6" using w2 by (blast intro: shrinks_trans)
    moreover have "snd (drainConnections sig err w) = ?w6"
      using r False Normal by (simp add: drainConnections_def Let_def setTimeout_def)
    ultimately show ?thesis by simp
  qed
qed

lemma shrinks_stopAcceptingConnections: "shrinks w (snd (stopAcceptingConnections sig err w))"
proof (cases "server w")
  case None
  then show ?thesis by (simp add: stopAcceptingConnections_def shrinks_enqueue)
next
  case (Some srv)
  let ?w2 = "record_effect (ServerClose (srv_id srv))
               (log Info ''Stopping server from accepting new connections'' w)"
  have "core ?w2 = core w" by (simp add: record_effect_frame log_frame core_indep)
  then have a: "shrinks w ?w2" by (rule shrinks_core)
  have "core (?w2\<lparr>closeCallbackArmed := True\<rparr>) = core ?w2" by (simp add: core_def)
  then have b: "shrinks ?w2 (?w2\<lparr>closeCallbackArmed := True\<rparr>)" by (rule shrinks_core)
  have c: "shrinks w (snd (andThen (emit ServerClosed PNone (?w2\<lparr>closeCallbackArmed := True\<rparr>))
               (\<lambda>w3. (Normal, w3\<lparr>closeWaiter := Some (sig, err)\<rparr>))))"
  proof (rule shrinks_andThen)
    show "shrinks w (snd (emit ServerClosed PNone (?w2\<lparr>closeCallbackArmed := True\<rparr>)))"
      using a b shrinks_emit by (blast intro: shrinks_trans)
    show "shrinks w' (snd (Normal, w'\<lparr>closeWaiter := Some (sig, err)\<rparr>))" for w'
      by (rule shrinks_core) (simp add: core_def)
  qed
  show ?thesis
    using Some a c by (simp add: stopAcceptingConnections_def Let_def split: option.splits)
qed

lemma shrinks_executeShutdownSequence: "shrinks w (executeShutdownSequence sig err w)"
  using shrinks_stopAcceptingConnections [of w sig err]
  by (cases "stopAcceptingConnections sig err w"; cases "fst (stopAcceptingConnections sig err w)")
     (auto simp: executeShutdownSequence_def intro: shrinks_trans shrinks_enqueue)

lemma shrinks_handleSignal: "shrinks w (snd (handleSignal sig err w))"
proof (cases "shutdownInitiated w")
  case True
  then show ?thesis by (simp add: handleSignal_def shrinks_log)
next
  case False
  let ?w1 = "log Info (''Received '' @ sig @ '' signal, initiating graceful shutdown'') w"
  let ?w2 = "?w1\<lparr>shutdownInitiated := True, shutdownStartTime := Some (now ?w1), state := SHUTDOWN_PENDING\<rparr>"
  have "core_registry ?w2 = core_registry w"
    by (simp add: log_frame core_registry_indep indepD [OF core_registry_indep(12)]
        indepD [OF core_registry_indep(13)] indepD [OF core_registry_indep(14)])
  then have 1: "shrinks w ?w2" by (rule shrinks_state) simp
  let ?r = "emit ShutdownInitiated (PTrigger sig err) ?w2"
  obtain out w3 where r: "?r = (out, w3)" by (cases ?r)
  with 1 shrinks_emit [of ?w2 ShutdownInitiated "PTrigger sig err"]
  have w3: "shrinks w w3" by (auto intro: shrinks_trans)
  show ?thesis
  proof (cases out)
    case Normal
    with r False w3 shrinks_executeShutdownSequence [of w3 sig err] show ?thesis
      by (auto simp: handleSignal_def Let_def intro: shrinks_trans)
  next
    case (Raise e)
    with r False w3 shrinks_handleSignal_catch [of w3 e] show ?thesis
      by (auto simp: handleSignal_def Let_def intro: shrinks_trans)
  qed
qed

lemma shrinks_record_effect: "shrinks w (record_effect x w)"
  by (rule shrinks_core) (simp add: record_effect_frame core_indep)

lemma shrinks_handler:
  "shrinks w (case handleSignal sig err w of (Normal, w2) \<Rightarrow> w2 | (Raise e, w2) \<Rightarrow> reject e w2)"
proof (cases "handleSignal sig err w")
  case (Pair out w2)
  with shrinks_handleSignal [of w sig err] have "shrinks w w2" by simp
  with Pair show ?thesis
    by (cases out) (auto intro: shrinks_trans shrinks_reject)
qed

lemma shrinks_uncaughtException: "shrinks w (uncaughtException e w)"
proof -
  let ?w1 = "record_effect (UncaughtException e) w"
  have 1: "shrinks w ?w1" by (rule shrinks_record_effect)
  have 2: "shrinks w (process_exit c ?w1)" for c
    using 1 shrinks_process_exit by (blast intro: shrinks_trans)
  have 3: "shrinks w (case handleSignal s r (log l m ?w1) of
      (Normal, w2) \<Rightarrow> w2 | (Raise e, w2) \<Rightarrow> reject e w2)" for s r l m
    using 1 shrinks_log shrinks_handler by (blast intro: shrinks_trans)
  from 2 3 show ?thesis
    by (simp add: uncaughtException_def Let_def split: outcome.splits)
qed

lemma shrinks_unhandledRejection: "shrinks w (unhandledRejection e w)"
proof -
  let ?w1 = "record_effect (UnhandledRejection e) w"
  have 1: "shrinks w ?w1" by (rule shrinks_record_effect)
  have 2: "shrinks w (process_exit c ?w1)" for c
    using 1 shrinks_process_exit by (blast intro: shrinks_trans)
  have 3: "shrinks w (case handleSignal s r (log l m ?w1) of
      (Normal, w2) \<Rightarrow> w2 | (Raise e, w2) \<Rightarrow> reject e w2)" for s r l m
    using 1 shrinks_log shrinks_handler by (blast intro: shrinks_trans)
  have 4: "shrinks w (uncaughtException x ?w1)" for x
    using 1 shrinks_uncaughtException by (blast intro: shrinks_trans)
  from 2 3 4 show ?thesis
    by (simp add: unhandledRejection_def Let_def split: outcome.splits)
qed

lemma shrinks_host_callback: "shrinks w (snd r) \<Longrightarrow> shrinks w (host_callback r)"
  using shrinks_uncaughtException
  by (cases r; cases "fst r") (auto simp: host_callback_def intro: shrinks_trans)

lemma shrinks_async_call: "shrinks w (snd r) \<Longrightarrow> shrinks w (async_call r)"
  using shrinks_reject
  by (cases r; cases "fst r") (auto simp: async_call_def intro: shrinks_trans)

lemma shrinks_then_enqueue:
  assumes "shrinks w (snd r)"
  shows "shrinks w (enqueue j (snd r))"
  using assms shrinks_enqueue by (blast intro: shrinks_trans)

lemma shrinks_exec_job: "shrinks w (exec_job j w)"
proof (cases j)
  case (AfterStopAccept sig err)
  then show ?thesis
    using shrinks_drainConnections [of w sig err]
    by (cases "drainConnections sig err w"; cases "fst (drainConnections sig err w)")
       (auto intro: shrinks_trans shrinks_enqueue)
next
  case (AfterDrain sig err)
  then show ?thesis by (simp add: shrinks_start_cleanup)
next
  case (CleanupSettle c xs)
  then show ?thesis
    using shrinks_then_enqueue [OF shrinks_resume_all, of w _ "''Error in resource cleanup callback''" xs]
    by (cases "resume_all ''Error in resource cleanup callback'' xs w") simp
next
  case (CleanupResume c rej)
  then show ?thesis
    using shrinks_then_enqueue [OF shrinks_performResourceCleanup_resume, of w _ rej]
    by (cases "performResourceCleanup_resume rej w"; cases "fst (performResourceCleanup_resume rej w)")
       simp_all
next
  case (AfterCleanup c)
  then show ?thesis
    using shrinks_then_enqueue [OF shrinks_executeShutdownCallbacks_begin, of w]
    by (cases "executeShutdownCallbacks_begin w"; cases "fst (executeShutdownCallbacks_begin w)")
       simp_all
next
  case (CallbacksSettle c xs)
  then show ?thesis
    using shrinks_then_enqueue [OF shrinks_resume_all, of w _ "''Error in shutdown callback''" xs]
    by (cases "resume_all ''Error in shutdown callback'' xs w") simp
next
  case (CallbacksResume c n)
  then show ?thesis
    using shrinks_then_enqueue [OF shrinks_executeShutdownCallbacks_resume, of w _ n]
    by (cases "executeShutdownCallbacks_resume n w"; cases "fst (executeShutdownCallbacks_resume n w)")
       simp_all
next
  case (AfterCallbacks c)
  have "shrinks w (snd (caller_complete c w))"
    by (cases c) (simp_all add: shrinks_completeShutdown)
  with AfterCallbacks show ?thesis
    by (cases "caller_complete c w"; cases "fst (caller_complete c w)")
       (auto intro: shrinks_trans shrinks_enqueue)
next
  case (Catch c e)
  with shrinks_caller_catch [of w c e] show ?thesis
    by (cases "caller_catch c e w"; cases "fst (caller_catch c e w)")
       (auto intro: shrinks_trans shrinks_reject)
next
  case (Hop j')
  then show ?thesis by (simp add: shrinks_enqueue)
qed

lemma shrinks_run_jobs: "shrinks w (run_jobs w)"
proof (induction w rule: run_jobs.induct)
  case (1 w)
  show ?case
  proof (cases "exited w \<noteq> None")
    case True
    then show ?thesis by (simp add: run_jobs.simps shrinks_refl)
  next
    case False
    show ?thesis
    proof (cases "jobs w")
      case (Cons j js)
      with False have r: "run_jobs w = run_jobs (exec_job j (w\<lparr>jobs := js\<rparr>))"
        by (subst run_jobs.simps) simp
      have "core (w\<lparr>jobs := js\<rparr>) = core w" by (simp add: core_def)
      then have "shrinks w (w\<lparr>jobs := js\<rparr>)" by (rule shrinks_core)
      with shrinks_exec_job [of "w\<lparr>jobs := js\<rparr>" j] "1.IH"(2) [OF False Cons] r
      show ?thesis by (auto intro: shrinks_trans)
    next
      case Nil
      note idle = Nil
      show ?thesis
      proof (cases "rejections w")
        case Nil
        with False idle show ?thesis by (simp add: run_jobs.simps shrinks_refl)
      next
        case (Cons r rs)
        with False idle
        have e: "run_jobs w = run_jobs (unhandledRejection r (w\<lparr>rejections := rs\<rparr>))"
          by (subst run_jobs.simps) simp
        have "core (w\<lparr>rejections := rs\<rparr>) = core w" by (simp add: core_def)
        then have "shrinks w (w\<lparr>rejections := rs\<rparr>)" by (rule shrinks_core)
        with shrinks_unhandledRejection [of "w\<lparr>rejections := rs\<rparr>" r]
          "1.IH"(1) [OF False idle Cons] e
        show ?thesis by (auto intro: shrinks_trans)
      qed
    qed
  qed
qed

lemma keys_delete: "map fst (AList.delete c al) = filter (\<lambda>k. k \<noteq> c) (map fst al)"
  by (induction al) (auto simp: AList.delete_eq)

lemma shrinks_removeConnection: "shrinks w (snd (removeConnection c w))"
proof (cases "map_of (activeConnections w) c")
  case None
  then show ?thesis by (simp add: removeConnection_def shrinks_refl)
next
  case (Some info)
  let ?r = "snd (removeConnection c w)"
  have i: "indep trace_update config" "indep pendingTimers_update config"
    "indep timers_update config" "indep jobs_update config" "indep drainWaiter_update config"
    "indep intervals_update config" "indep eventListeners_update config"
    "indep signalHandlers_update config" "indep shutdownErrors_update config"
    "indep state_update config"
    "indep trace_update connectionCounter" "indep pendingTimers_update connectionCounter"
    "indep timers_update connectionCounter" "indep jobs_update connectionCounter"
    "indep drainWaiter_update connectionCounter"
    "indep intervals_update connectionCounter" "indep eventListeners_update connectionCounter"
    "indep signalHandlers_update connectionCounter" "indep shutdownErrors_update connectionCounter"
    "indep state_update connectionCounter"
    "indep trace_update state" "indep pendingTimers_update state"
    "indep timers_update state" "indep jobs_update state" "indep drainWaiter_update state"
    by (simp_all add: indep_def)
  let ?d = "removeConnection_delete c info w"
  have d: "config ?d = config w" "connectionCounter ?d = connectionCounter w" "state ?d = state w"
    by (auto simp: removeConnection_delete_def Let_def log_frame clearTimeout_frame i
        split: option.splits)
  have "config ?r = config ?d" "connectionCounter ?r = connectionCounter ?d"
    unfolding removeConnection_tracked [OF Some]
    by (rule andThen_frame; simp add: emit_frame removeConnection_check_frame i)+
  with d have cc: "config ?r = config w" "connectionCounter ?r = connectionCounter w"
    by simp_all
  obtain out b where e: "emit ConnectionRemoved (PConn c) ?d = (out, b)"
    by (cases "emit ConnectionRemoved (PConn c) ?d")
  have "state (snd (emit ConnectionRemoved (PConn c) ?d)) = state w"
    by (simp add: emit_frame i d)
  with e have b: "state b = state w" by simp
  have chk: "state (snd (removeConnection_check b)) = state b
      \<or> state (snd (removeConnection_check b)) \<noteq> ACTIVE"
    by (simp add: removeConnection_check_def state_transitionToCleanup)
  have st: "state ?r = state w \<or> state ?r \<noteq> ACTIVE"
  proof (cases out)
    case Normal
    with e have "?r = snd (removeConnection_check b)"
      by (simp add: removeConnection_tracked [OF Some] andThen_def)
    with chk b show ?thesis by auto
  next
    case (Raise x)
    with e have "?r = b"
      by (simp add: removeConnection_tracked [OF Some] andThen_def)
    with b show ?thesis by simp
  qed
  have "map fst (activeConnections ?r) = filter (\<lambda>k. k \<noteq> c) (map fst (activeConnections w))"
    by (simp add: removeConnection_registry keys_delete)
  then have "\<exists>P. map fst (activeConnections ?r) = filter P (map fst (activeConnections w))"
    by blast
  with cc st show ?thesis by (simp add: shrinks_def)
qed

lemma shrinks_handleConnectionTimeout: "shrinks w (snd (handleConnectionTimeout c w))"
proof (cases "map_of (activeConnections w) c")
  case None
  then show ?thesis by (simp add: handleConnectionTimeout_def shrinks_refl)
next
  case (Some info)
  have "shrinks w (snd (destroy (socket info) (log Warn ''Connection timeout, forcing close'' w)))"
    using shrinks_log shrinks_destroy by (blast intro: shrinks_trans)
  then show ?thesis
    using Some
    by (auto simp: handleConnectionTimeout_def
        intro!: shrinks_andThen shrinks_removeConnection shrinks_emit)
qed

lemma shrinks_onSocketError: "shrinks w (snd (onSocketError c w))"
  unfolding onSocketError_def
  by (rule shrinks_trans [OF shrinks_log shrinks_removeConnection])

lemma shrinks_onSocketData: "shrinks w (onSocketData c w)"
proof (cases "map_of (activeConnections w) c")
  case None
  then show ?thesis by (simp add: onSocketData_def shrinks_refl)
next
  case (Some conn)
  then have "c \<in> set (map fst (activeConnections w))"
    by (metis map_of_eq_None_iff option.distinct(1) set_map)
  then have "map fst (AList.update c v (activeConnections w)) = map fst (activeConnections w)" for v
    by (simp add: update_keys)
  then have "map fst (AList.update c v (activeConnections w))
      = filter (\<lambda>_. True) (map fst (activeConnections w))" for v
    by simp
  then have "\<exists>P. map fst (AList.update c v (activeConnections w))
      = filter P (map fst (activeConnections w))" for v
    by blast
  with Some show ?thesis by (simp add: onSocketData_def shrinks_def)
qed

lemma shrinks_graceTimeoutExpired: "shrinks w (snd (graceTimeoutExpired t w))"
proof -
  have "shrinks w (snd (forceCloseConnections
      (log Warn ''Grace period expired, forcing connection termination'' w)))"
    using shrinks_log shrinks_forceCloseConnections by (blast intro: shrinks_trans)
  then show ?thesis
    by (auto simp: graceTimeoutExpired_def intro!: shrinks_andThen shrinks_resolveDrain)
qed

lemma shrinks_timer_fire: "shrinks w (snd (timer_fire t a w))"
  by (cases a)
     (simp_all add: shrinks_handleConnectionTimeout shrinks_graceTimeoutExpired shrinks_process_exit)

lemma shrinks_fireTimer: "shrinks w (snd (fireTimer t w))"
proof -
  have "core (w\<lparr>pendingTimers := x\<rparr>) = core w" for x by (simp add: core_def)
  then have "shrinks w (snd (timer_fire t a (w\<lparr>pendingTimers := x\<rparr>)))" for a x
    using shrinks_core shrinks_timer_fire by (blast intro: shrinks_trans)
  then show ?thesis
    by (auto simp: fireTimer_def shrinks_refl split: option.splits)
qed

lemma shrinks_serverCloseCallback: "shrinks w (serverCloseCallback e w)"
proof -
  have a: "core ((log l m w)\<lparr>shutdownErrors := x\<rparr>) = core w" for l m x
    by (simp add: log_frame core_indep indepD [OF core_indep(7)])
  have b: "core (log l m w) = core w" for l m
    by (simp add: log_frame core_indep)
  have c: "core (case closeWaiter w1 of
                   Some (sig, err) \<Rightarrow> enqueue (Hop (AfterStopAccept sig err)) (w1\<lparr>closeWaiter := None\<rparr>)
                 | None \<Rightarrow> w1) = core w1" for w1
    by (simp add: enqueue_frame core_indep indepD [OF core_indep(11)] split: option.splits)
  have "core (serverCloseCallback e w) = core w"
    by (simp add: serverCloseCallback_def Let_def a b c split: option.splits js_error.splits)
  then show ?thesis by (rule shrinks_core)
qed

lemma shrinks_registerServer: "shrinks w (snd (registerServer arg w))"
proof -
  have a: "core (install_signal sig w') = core w'" for sig w'
    by (simp add: install_signal_def log_frame record_effect_frame core_indep indepD [OF core_indep(6)])
  have b: "core (setupSignalHandlers w') = core w'" for w'
    by (simp add: setupSignalHandlers_def Let_def a record_effect_frame core_indep
        indepD [OF core_indep(18)])
  have c: "core (setupConnectionTracking srv w') = core w'" for srv w'
    by (simp add: setupConnectionTracking_def record_effect_frame core_indep)
  have "core (snd (registerServer arg w)) = core w"
    by (auto simp: registerServer_def Let_def emit_frame log_frame b c core_indep
        indepD [OF core_indep(17)] split: option.splits)
  then show ?thesis by (rule shrinks_core)
qed

lemma shrinks_interface:
  "shrinks w (onShutdown cb w)" "shrinks w (onResourceCleanup cb w)"
  "shrinks w (trackTimer t w)" "shrinks w (trackInterval t w)"
  "shrinks w (trackEventListener tg ev h w)"
  "shrinks w (w\<lparr>listeners := ls\<rparr>)" "shrinks w (w\<lparr>now := n\<rparr>)"
proof -
  have "core (onShutdown cb w) = core w" "core (onResourceCleanup cb w) = core w"
    "core (trackTimer t w) = core w" "core (trackInterval t w) = core w"
    "core (trackEventListener tg ev h w) = core w"
    "core (w\<lparr>listeners := ls\<rparr>) = core w" "core (w\<lparr>now := n\<rparr>) = core w"
    by (simp_all add: onShutdown_def onResourceCleanup_def trackTimer_def trackInterval_def
        trackEventListener_def Let_def log_def record_effect_def core_def)
  then show "shrinks w (onShutdown cb w)" "shrinks w (onResourceCleanup cb w)"
    "shrinks w (trackTimer t w)" "shrinks w (trackInterval t w)"
    "shrinks w (trackEventListener tg ev h w)"
    "shrinks w (w\<lparr>listeners := ls\<rparr>)" "shrinks w (w\<lparr>now := n\<rparr>)"
    by (simp_all add: shrinks_core)
qed

lemma shrinks_shutdown: "shrinks w (snd (shutdown reason w))"
  unfolding shutdown_def
  by (rule shrinks_trans [OF shrinks_log shrinks_handleSignal])

lemma shrinks_deliver:
  assumes "\<And>sock. ev \<noteq> Connection sock"
  shows "shrinks w (deliver ev w)"
proof (cases ev)
  case (Connection sock)
  with assms show ?thesis by blast
qed (simp_all add: shrinks_async_call shrinks_handleSignal shrinks_uncaughtException
        shrinks_unhandledRejection shrinks_shutdown shrinks_host_callback shrinks_removeConnection
        shrinks_onSocketError shrinks_onSocketData shrinks_fireTimer shrinks_serverCloseCallback
        shrinks_registerServer shrinks_interface)

lemma log_fields:
  "config (log l m w) = config w" "state (log l m w) = state w"
  "activeConnections (log l m w) = activeConnections w" "now (log l m w) = now w"
  "nextTimer (log l m w) = nextTimer w" "pendingTimers (log l m w) = pendingTimers w"
  "connectionCounter (log l m w) = connectionCounter w"
  by (simp_all add: log_def record_effect_def)

lemma limit_checked_fields:
  "config (limit_checked w) = config w"
  "connectionCounter (limit_checked w) = Suc (connectionCounter w)"
  "state (limit_checked w) = state w" "activeConnections (limit_checked w) = activeConnections w"
  "now (limit_checked w) = now w" "nextTimer (limit_checked w) = nextTimer w"
  "pendingTimers (limit_checked w) = pendingTimers w"
  by (simp_all add: limit_checked_def Let_def log_fields)

lemma onConnection_unfold:
  "onConnection sock w =
     (if rejects w then destroy sock (limit_checked w)
      else emit ConnectionRegistered (PConn (now w, Suc (connectionCounter w)))
             (log Debug ''Connection registered''
               ((limit_checked w)
                  \<lparr>nextTimer := Suc (nextTimer w),
                   pendingTimers := pendingTimers w @
                     [(nextTimer w, now w + timer_delay (connectionTimeoutMs (config w)),
                       ConnTimeout (now w, Suc (connectionCounter w)))],
                   activeConnections :=
                     AList.update (now w, Suc (connectionCounter w)) (new_connection_info sock w)
                       (activeConnections w)\<rparr>)))"
proof -
  let ?w = "w\<lparr>connectionCounter := Suc (connectionCounter w)\<rparr>"
  have l: "limit_checked w =
      (if int (length (activeConnections ?w)) \<ge> maxConnections (config ?w) \<and> \<not> maxConnectionsReached ?w
       then (log Warn ''Maximum connections reached'' ?w)\<lparr>maxConnectionsReached := True\<rparr>
       else ?w)"
    by (simp add: limit_checked_def Let_def)
  have "onConnection sock w =
     (if int (length (activeConnections ?w)) \<ge> maxConnections (config ?w) \<and> state (limit_checked w) = ACTIVE
      then destroy sock (limit_checked w)
      else
        (let info = \<lparr> cid = (now w, Suc (connectionCounter w)), socket = sock,
                      startTime = now (limit_checked w),
                      remoteAddress = sock_remoteAddress sock,
                      remotePort = sock_remotePort sock, requestCount = 0,
                      lastActivity = now (limit_checked w), timeout = None \<rparr>;
             w2 = (limit_checked w)\<lparr>activeConnections :=
                     AList.update (now w, Suc (connectionCounter w)) info
                       (activeConnections (limit_checked w))\<rparr>;
             (t, w3) = setTimeout (connectionTimeoutMs (config w2))
                         (ConnTimeout (now w, Suc (connectionCounter w))) w2;
             w4 = w3\<lparr>activeConnections :=
                       AList.update (now w, Suc (connectionCounter w)) (info\<lparr>timeout := Some t\<rparr>)
                         (activeConnections w3)\<rparr>;
             w5 = log Debug ''Connection registered'' w4
         in emit ConnectionRegistered (PConn (now w, Suc (connectionCounter w))) w5))"
    unfolding onConnection_def generateConnectionId_def l by (simp only: Let_def split_conv)
  also have "\<dots> = (if rejects w then destroy sock (limit_checked w)
      else emit ConnectionRegistered (PConn (now w, Suc (connectionCounter w)))
             (log Debug ''Connection registered''
               ((limit_checked w)
                  \<lparr>nextTimer := Suc (nextTimer w),
                   pendingTimers := pendingTimers w @
                     [(nextTimer w, now w + timer_delay (connectionTimeoutMs (config w)),
                       ConnTimeout (now w, Suc (connectionCounter w)))],
                   activeConnections :=
                     AList.update (now w, Suc (connectionCounter w)) (new_connection_info sock w)
                       (activeConnections w)\<rparr>)))"
    by (simp add: Let_def setTimeout_def limit_checked_fields rejects_def new_connection_info_def)
  finally show ?thesis .
qed

lemma onConnection_facts:
  "config (snd (onConnection sock w)) = config w"
  "connectionCounter (snd (onConnection sock w)) = Suc (connectionCounter w)"
  "state (snd (onConnection sock w)) = state w"
  "activeConnections (snd (onConnection sock w)) =
     (if rejects w then activeConnections w
      else AList.update (now w, Suc (connectionCounter w)) (new_connection_info sock w)
             (activeConnections w))"
proof -
  have i: "indep trace_update config" "indep pendingTimers_update config"
    "indep timers_update config" "indep jobs_update config" "indep drainWaiter_update config"
    "indep trace_update connectionCounter" "indep pendingTimers_update connectionCounter"
    "indep timers_update connectionCounter" "indep jobs_update connectionCounter"
    "indep drainWaiter_update connectionCounter"
    "indep trace_update state" "indep pendingTimers_update state"
    "indep timers_update state" "indep jobs_update state" "indep drainWaiter_update state"
    "indep trace_update activeConnections" "indep pendingTimers_update activeConnections"
    "indep timers_update activeConnections" "indep jobs_update activeConnections"
    "indep drainWaiter_update activeConnections"
    by (simp_all add: indep_def)
  show "config (snd (onConnection sock w)) = config w"
    by (simp add: onConnection_unfold destroy_frame emit_frame log_frame i limit_checked_fields)
  show "connectionCounter (snd (onConnection sock w)) = Suc (connectionCounter w)"
    by (simp add: onConnection_unfold destroy_frame emit_frame log_frame i limit_checked_fields)
  show "state (snd (onConnection sock w)) = state w"
    by (simp add: onConnection_unfold destroy_frame emit_frame log_frame i limit_checked_fields)
  show "activeConnections (snd (onConnection sock w)) =
     (if rejects w then activeConnections w
      else AList.update (now w, Suc (connectionCounter w)) (new_connection_info sock w)
             (activeConnections w))"
    by (simp add: onConnection_unfold destroy_frame emit_frame log_frame i limit_checked_fields)
qed

section \<open>Admission control (C8)\<close>

lemma shrinks_length:
  assumes "shrinks w w'"
  shows "length (activeConnections w') \<le> length (activeConnections w)"
proof -
  from assms obtain P where "map fst (activeConnections w') = filter P (map fst (activeConnections w))"
    unfolding shrinks_def by blast
  then have "length (map fst (activeConnections w')) \<le> length (map fst (activeConnections w))"
    by (metis length_filter_le)
  then show ?thesis by simp
qed

lemma within_limit_shrinks:
  assumes "within_limit w" "shrinks w w'"
  shows "within_limit w'"
  using assms shrinks_length [OF assms(2)]
  by (auto simp: within_limit_def shrinks_def)

lemma within_limit_onConnection:
  assumes "within_limit w"
  shows "within_limit (snd (onConnection sock w))"
proof (cases "rejects w")
  case True
  with assms show ?thesis by (simp add: within_limit_def onConnection_facts)
next
  case False
  let ?al = "AList.update (now w, Suc (connectionCounter w)) (new_connection_info sock w)
               (activeConnections w)"
  have "length (AList.update k v al) \<le> Suc (length al)" for k :: conn_id and v :: connection_info and al
    by (induction al) auto
  then have l: "int (length ?al) \<le> int (length (activeConnections w)) + 1"
    by (metis of_nat_Suc of_nat_le_iff add.commute)
  have "int (length ?al) \<le> maxConnections (config w)" if "state w = ACTIVE"
    using that False l by (simp add: rejects_def)
  with False show ?thesis
    by (simp add: within_limit_def onConnection_facts)
qed

lemma within_limit_step:
  assumes "within_limit w"
  shows "within_limit (step te w)"
proof (cases "exited w \<noteq> None")
  case True
  with assms show ?thesis by (simp add: step_def)
next
  case False
  let ?w = "w\<lparr>now := fst te\<rparr>"
  have a: "within_limit ?w"
    using assms by (simp add: within_limit_def)
  have "within_limit (deliver (snd te) ?w)"
  proof (cases "\<exists>sock. snd te = Connection sock")
    case True
    then obtain sock where c: "snd te = Connection sock" by blast
    have "within_limit (host_callback (onConnection sock ?w))"
      using within_limit_onConnection [OF a, of sock]
        shrinks_host_callback [OF shrinks_refl, of "onConnection sock ?w"]
      by (rule within_limit_shrinks)
    with c a show ?thesis by simp
  next
    case False
    then have "shrinks ?w (deliver (snd te) ?w)"
      by (intro shrinks_deliver) blast
    with a show ?thesis by (rule within_limit_shrinks)
  qed
  then have "within_limit (run_jobs (deliver (snd te) ?w))"
    using shrinks_run_jobs by (rule within_limit_shrinks)
  with False show ?thesis by (simp add: step_def)
qed

lemma within_limit_run: "within_limit w \<Longrightarrow> within_limit (run evs w)"
  unfolding run_def
  by (induction evs arbitrary: w) (simp_all add: within_limit_step)

lemma created_fields:
  "state (createShutdownCoordinator opts) = ACTIVE"
  "activeConnections (createShutdownCoordinator opts) = []"
  "config (createShutdownCoordinator opts) = merge_config opts"
  "connectionCounter (createShutdownCoordinator opts) = 0"
  by (simp_all add: createShutdownCoordinator_def log_def record_effect_def)

lemma config_step: "config (step te w) = config w"
proof (cases "exited w \<noteq> None")
  case True
  then show ?thesis by (simp add: step_def)
next
  case False
  let ?w = "w\<lparr>now := fst te\<rparr>"
  have "config (deliver (snd te) ?w) = config ?w"
  proof (cases "\<exists>sock. snd te = Connection sock")
    case True
    then obtain sock where c: "snd te = Connection sock" by blast
    have "shrinks (snd (onConnection sock ?w)) (host_callback (onConnection sock ?w))"
      by (rule shrinks_host_callback [OF shrinks_refl])
    then have "config (host_callback (onConnection sock ?w)) = config ?w"
      by (simp add: shrinks_def onConnection_facts)
    with c show ?thesis by simp
  next
    case False
    then have "shrinks ?w (deliver (snd te) ?w)"
      by (intro shrinks_deliver) blast
    then show ?thesis by (simp add: shrinks_def)
  qed
  moreover have "config (run_jobs w') = config w'" for w'
    using shrinks_run_jobs [of w'] by (simp add: shrinks_def)
  ultimately show ?thesis using False by (simp add: step_def)
qed

lemma config_run: "config (run evs w) = config w"
  unfolding run_def
  by (induction evs arbitrary: w) (simp_all add: config_step)

text \<open>
  C8. When the coordinator is \<open>ACTIVE\<close> and tracks at least \<open>maxConnections\<close>
  connections, the connection listener destroys the offered socket and leaves the registry
  as it is. Hence the bound "\<open>ACTIVE\<close> implies size at most \<open>maxConnections\<close>" is kept
  by every run of host callbacks and interface calls, and it holds in every state a
  coordinator created with a limit that is not negative can reach.
\<close>

theorem admission_control_while_active:
  "(state w = ACTIVE \<and> int (length (activeConnections w)) \<ge> maxConnections (config w) \<longrightarrow>
      activeConnections (snd (onConnection sock w)) = activeConnections w
      \<and> SocketDestroy (sock_id sock) \<in> set (trace (snd (onConnection sock w))))
   \<and> (within_limit w \<longrightarrow> within_limit (run evs w))
   \<and> (0 \<le> maxConnections (merge_config opts) \<longrightarrow>
        (state (run evs (createShutdownCoordinator opts)) = ACTIVE \<longrightarrow>
           int (length (activeConnections (run evs (createShutdownCoordinator opts))))
             \<le> maxConnections (merge_config opts)))"
proof (intro conjI impI)
  assume a: "state w = ACTIVE \<and> int (length (activeConnections w)) \<ge> maxConnections (config w)"
  then have r: "rejects w" by (simp add: rejects_def)
  then show "activeConnections (snd (onConnection sock w)) = activeConnections w"
    by (simp add: onConnection_facts)
  from r show "SocketDestroy (sock_id sock) \<in> set (trace (snd (onConnection sock w)))"
    by (simp add: onConnection_unfold destroy_def record_effect_def)
next
  assume "within_limit w"
  then show "within_limit (run evs w)" by (rule within_limit_run)
next
  assume "0 \<le> maxConnections (merge_config opts)"
    and s: "state (run evs (createShutdownCoordinator opts)) = ACTIVE"
  then have "within_limit (createShutdownCoordinator opts)"
    by (simp add: within_limit_def created_fields)
  then have "within_limit (run evs (createShutdownCoordinator opts))"
    by (rule within_limit_run)
  with s show "int (length (activeConnections (run evs (createShutdownCoordinator opts))))
      \<le> maxConnections (merge_config opts)"
    by (simp add: within_limit_def config_run created_fields)
qed

lemma full_house_fields:
  "(state full_house, length (activeConnections full_house), maxConnections (config full_house))
     = (ACTIVE, 1, 1)"
  by (simp add: full_house_def one_slot_def sample_server_def sample_socket_def eval_defs)

lemma full_house_after_third:
  "state (run [(1, RegisterServer (Some (sample_server 1))), (2, Connection (sample_socket 1)),
               (3, Connection (sample_socket 2))] (createShutdownCoordinator one_slot)) = ACTIVE"
  by (simp add: one_slot_def sample_server_def sample_socket_def eval_defs)

theorem admission_control_while_active_witness:
  "activeConnections (snd (onConnection (sample_socket 2) full_house)) = activeConnections full_house
   \<and> SocketDestroy 2 \<in> set (trace (snd (onConnection (sample_socket 2) full_house)))
   \<and> int (length (activeConnections
        (run [(1, RegisterServer (Some (sample_server 1))), (2, Connection (sample_socket 1)),
              (3, Connection (sample_socket 2))] (createShutdownCoordinator one_slot)))) \<le> 1"
proof -
  from full_house_fields
  have h: "state full_house = ACTIVE
      \<and> int (length (activeConnections full_house)) \<ge> maxConnections (config full_house)"
    by simp
  have m: "maxConnections (merge_config one_slot) = 1"
    by (simp add: one_slot_def merge_config_def no_options_def)
  have s: "sock_id (sample_socket 2) = 2"
    by (simp add: sample_socket_def)
  note t = admission_control_while_active
    [of full_house "sample_socket 2"
        "[(1, RegisterServer (Some (sample_server 1))), (2, Connection (sample_socket 1)),
          (3, Connection (sample_socket 2))]" one_slot]
  from t h s have a: "activeConnections (snd (onConnection (sample_socket 2) full_house))
      = activeConnections full_house"
    "SocketDestroy 2 \<in> set (trace (snd (onConnection (sample_socket 2) full_house)))"
    by auto
  from t m full_house_after_third
  have b: "int (length (activeConnections
        (run [(1, RegisterServer (Some (sample_server 1))), (2, Connection (sample_socket 1)),
              (3, Connection (sample_socket 2))] (createShutdownCoordinator one_slot)))) \<le> 1"
    by simp
  from a b show ?thesis by blast
qed

section \<open>Register, then remove (C9)\<close>

lemma shrinks_keys:
  assumes "shrinks w w'"
  shows "fst ` set (activeConnections w') \<subseteq> fst ` set (activeConnections w)"
proof -
  from assms obtain P where "map fst (activeConnections w') = filter P (map fst (activeConnections w))"
    unfolding shrinks_def by blast
  then have "set (map fst (activeConnections w')) \<subseteq> set (map fst (activeConnections w))"
    by (metis filter_is_subset)
  then show ?thesis by simp
qed

lemma ids_bounded_shrinks:
  assumes "ids_bounded w" "shrinks w w'"
  shows "ids_bounded w'"
proof -
  have k: "fst ` set (activeConnections w') \<subseteq> fst ` set (activeConnections w)"
    using assms(2) by (rule shrinks_keys)
  have n: "connectionCounter w' = connectionCounter w"
    using assms(2) by (simp add: shrinks_def)
  show ?thesis
    unfolding ids_bounded_def n
  proof
    fix c assume "c \<in> fst ` set (activeConnections w')"
    with k have "c \<in> fst ` set (activeConnections w)" by blast
    with assms(1) show "snd c \<le> connectionCounter w"
      unfolding ids_bounded_def by blast
  qed
qed

lemma ids_bounded_onConnection:
  assumes "ids_bounded w"
  shows "ids_bounded (snd (onConnection sock w))"
  unfolding ids_bounded_def onConnection_facts
proof
  fix c
  assume "c \<in> fst ` set (if rejects w then activeConnections w
      else AList.update (now w, Suc (connectionCounter w)) (new_connection_info sock w)
             (activeConnections w))"
  then have "c = (now w, Suc (connectionCounter w)) \<or> c \<in> fst ` set (activeConnections w)"
    by (auto simp: dom_update split: if_splits)
  then show "snd c \<le> Suc (connectionCounter w)"
  proof
    assume "c = (now w, Suc (connectionCounter w))"
    then show ?thesis by simp
  next
    assume "c \<in> fst ` set (activeConnections w)"
    with assms have "snd c \<le> connectionCounter w"
      unfolding ids_bounded_def by blast
    then show ?thesis by simp
  qed
qed

lemma ids_bounded_step:
  assumes "ids_bounded w"
  shows "ids_bounded (step te w)"
proof (cases "exited w \<noteq> None")
  case True
  with assms show ?thesis by (simp add: step_def)
next
  case False
  let ?w = "w\<lparr>now := fst te\<rparr>"
  have a: "ids_bounded ?w"
    using assms by (simp add: ids_bounded_def)
  have "ids_bounded (deliver (snd te) ?w)"
  proof (cases "\<exists>sock. snd te = Connection sock")
    case True
    then obtain sock where c: "snd te = Connection sock" by blast
    have "ids_bounded (host_callback (onConnection sock ?w))"
      using ids_bounded_onConnection [OF a, of sock]
        shrinks_host_callback [OF shrinks_refl, of "onConnection sock ?w"]
      by (rule ids_bounded_shrinks)
    with c a show ?thesis by simp
  next
    case False
    then have "shrinks ?w (deliver (snd te) ?w)"
      by (intro shrinks_deliver) blast
    with a show ?thesis by (rule ids_bounded_shrinks)
  qed
  then have "ids_bounded (run_jobs (deliver (snd te) ?w))"
    using shrinks_run_jobs by (rule ids_bounded_shrinks)
  with False show ?thesis by (simp add: step_def)
qed

lemma ids_bounded_run: "ids_bounded w \<Longrightarrow> ids_bounded (run evs w)"
  unfolding run_def
  by (induction evs arbitrary: w) (simp_all add: ids_bounded_step)

lemma update_fresh:
  "k \<notin> fst ` set al \<Longrightarrow> AList.update k v al = al @ [(k, v)]"
  by (induction al) auto

text \<open>
  C9. In every state the coordinator can reach (more generally, whenever the tracked ids
  come from the counter), offering a connection and then removing the id the listener
  drew for it gives back the registry as it was before: same records in the same order,
  so the same size, and no record under the new id. If the connection was admitted, it
  was tracked in between and the size was one more.
\<close>

theorem register_then_remove_restores_registry:
  "ids_bounded (run evs (createShutdownCoordinator opts))
   \<and> (ids_bounded w \<longrightarrow>
        activeConnections
          (snd (removeConnection (fst (generateConnectionId w)) (snd (onConnection sock w))))
          = activeConnections w
        \<and> length (activeConnections
            (snd (removeConnection (fst (generateConnectionId w)) (snd (onConnection sock w)))))
          = length (activeConnections w)
        \<and> map_of (activeConnections
            (snd (removeConnection (fst (generateConnectionId w)) (snd (onConnection sock w)))))
            (fst (generateConnectionId w)) = None
        \<and> (\<not> rejects w \<longrightarrow>
             map_of (activeConnections (snd (onConnection sock w))) (fst (generateConnectionId w))
               = Some (new_connection_info sock w)
             \<and> length (activeConnections (snd (onConnection sock w)))
               = Suc (length (activeConnections w))))"
proof -
  have "ids_bounded (createShutdownCoordinator opts)"
    by (simp add: ids_bounded_def created_fields)
  then have reach: "ids_bounded (run evs (createShutdownCoordinator opts))"
    by (rule ids_bounded_run)
  let ?c = "fst (generateConnectionId w)"
  let ?w1 = "snd (onConnection sock w)"
  let ?w2 = "snd (removeConnection ?c ?w1)"
  have round: "activeConnections ?w2 = activeConnections w
      \<and> length (activeConnections ?w2) = length (activeConnections w)
      \<and> map_of (activeConnections ?w2) ?c = None
      \<and> (\<not> rejects w \<longrightarrow>
            map_of (activeConnections ?w1) ?c = Some (new_connection_info sock w)
            \<and> length (activeConnections ?w1) = Suc (length (activeConnections w)))"
    if b: "ids_bounded w"
  proof -
    have c: "?c = (now w, Suc (connectionCounter w))"
      by (simp add: generateConnectionId_def)
    have fresh: "?c \<notin> fst ` set (activeConnections w)"
    proof
      assume "?c \<in> fst ` set (activeConnections w)"
      with b have "snd ?c \<le> connectionCounter w"
        unfolding ids_bounded_def by blast
      then show False by (simp add: c)
    qed
    have w1: "activeConnections ?w1 =
        (if rejects w then activeConnections w
         else activeConnections w @ [(?c, new_connection_info sock w)])"
      using fresh by (simp add: onConnection_facts c update_fresh)
    have "AList.delete ?c (activeConnections w) = activeConnections w"
      using fresh by (rule delete_id)
    then have restored: "AList.delete ?c (activeConnections ?w1) = activeConnections w"
      by (simp add: w1 AList.delete_eq)
    have r: "activeConnections ?w2 = activeConnections w"
      by (simp add: removeConnection_registry restored)
    have gone: "map_of (activeConnections ?w2) ?c = None"
      using fresh by (simp add: r map_of_eq_None_iff)
    have kept: "map_of (activeConnections ?w1) ?c = Some (new_connection_info sock w)
        \<and> length (activeConnections ?w1) = Suc (length (activeConnections w))"
      if "\<not> rejects w"
    proof -
      from fresh have "map_of (activeConnections w) ?c = None"
        by (simp add: map_of_eq_None_iff)
      with that show ?thesis by (simp add: w1 map_add_def)
    qed
    from r gone kept show ?thesis by simp
  qed
  from reach round show ?thesis by blast
qed

theorem register_then_remove_restores_registry_witness:
  "ids_bounded one_connection
   \<and> activeConnections
       (snd (removeConnection (fst (generateConnectionId one_connection))
              (snd (onConnection (sample_socket 2) one_connection))))
     = [((2, 1), first_connection_info)]
   \<and> length (activeConnections (snd (onConnection (sample_socket 2) one_connection))) = 2"
proof -
  have h: "ids_bounded one_connection"
    unfolding one_connection_def
    using register_then_remove_restores_registry
      [of "[(1, RegisterServer (Some (sample_server 1))), (2, Connection (sample_socket 1))]"
          no_options one_connection "sample_socket 2"]
    by blast
  have n: "\<not> rejects one_connection"
    by (simp add: rejects_def one_connection_registry)
       (simp add: one_connection_def sample_server_def sample_socket_def eval_defs)
  note t = register_then_remove_restores_registry
    [of "[]" no_options one_connection "sample_socket 2"]
  from t h n show ?thesis
    by (simp add: one_connection_registry)
qed

section \<open>Runs of the whole sequence (C1, C2, C3)\<close>

text \<open>
  C1, evaluated on the run \<open>natural_drain_run\<close>. One trigger is accepted and the second
  is ignored by the guard, yet when the last connection closes during the drain the cleanup
  phase begins twice and each callback is called twice before the process exits:
  \<open>removeConnection\<close> starts \<open>transitionToCleanup\<close> for the very event that also
  resolves the drain promise the main sequence is waiting on. So the phases do not run
  exactly once. (The counts do not depend on the order in which the jobs of the two
  chains interleave: the first cleanup begins inside \<open>removeConnection\<close>, the second
  when the main sequence resumes from the drain, before either chain has ended.)
\<close>

theorem natural_drain_runs_cleanup_twice:
  "phase_runs (run natural_drain_run (createShutdownCoordinator no_options)) = (1, 2, 2, 2, Some 0)"
  by (simp add: natural_drain_run_def phase_runs_def cleanup_states_def sample_server_def
      sample_socket_def eval_defs)

text \<open>
  C2, evaluated on the run \<open>grace_expiry_run\<close>. When the grace period expires the one
  connection left is force-closed and the outcome reports a final connection count of 0
  and one forced close, as claimed; but the process exits with status 0, not 1: the expiry
  records no error, so \<open>completeShutdown\<close> selects the graceful status.
\<close>

theorem grace_expiry_exits_with_status_0:
  "shutdown_report
     (run grace_expiry_run (createShutdownCoordinator (no_options\<lparr>opt_gracePeriodMs := Some 100\<rparr>)))
   = (Some 0,
      [\<lparr> sum_signal = ''SIGTERM'', sum_duration = 100, sum_errorsEncountered = 0,
         sum_finalConnectionCount = 0, sum_exitCode = 0 \<rparr>],
      [1], 0)"
  by (simp add: grace_expiry_run_def shutdown_report_def sample_server_def sample_socket_def
      eval_defs)

text \<open>
  C3, evaluated on two runs of the normal sequence. The state in which
  \<open>performResourceCleanup\<close> begins is \<open>SHUTDOWN_PENDING\<close> when there was nothing to
  drain and \<open>DRAINING\<close> after a forced drain, not \<open>CLEANUP\<close>:
  \<open>executeShutdownSequence\<close> never sets \<open>CLEANUP\<close>, only \<open>transitionToCleanup\<close>
  does.
\<close>

theorem cleanup_begins_outside_cleanup_state:
  "(cleanup_states (run [(5, Trigger ''SIGTERM'' None)] (createShutdownCoordinator no_options)),
    cleanup_states
      (run forced_drain_run (createShutdownCoordinator (no_options\<lparr>opt_gracePeriodMs := Some 100\<rparr>))))
   = ([SHUTDOWN_PENDING], [DRAINING])"
  by (simp add: forced_drain_run_def cleanup_states_def sample_server_def sample_socket_def
      eval_defs)


end
